theory Spec2Isabelle
  imports Complex_Main "HOL-Library.AList" "HOL-Library.Log_Nat" "HOL-Library.Product_Lexorder"
begin

section \<open>Strings and patterns\<close>

text \<open>
  JavaScript strings are modelled as \<open>string\<close>, one \<open>char\<close> per code unit, so the
  model covers text whose code units fit one byte. Counters are \<open>nat\<close>. The stored
  statistics of a model are rationals and their running means are computed exactly; the
  arithmetic of the scorer is IEEE double arithmetic. Timestamps (\<open>new Date()\<close>) and log
  output are left out of the state.
\<close>

definition toLowerChar :: "char \<Rightarrow> char" where
  "toLowerChar c =
     (let n = (of_char c :: nat) in if 65 \<le> n \<and> n \<le> 90 then char_of (n + 32) else c)"

definition toLowerCase :: "string \<Rightarrow> string" where
  "toLowerCase s = map toLowerChar s"

fun startsWith :: "string \<Rightarrow> string \<Rightarrow> bool" where
  "startsWith s [] = True"
| "startsWith [] (k # ks) = False"
| "startsWith (c # cs) (k # ks) = (c = k \<and> startsWith cs ks)"

text \<open>\<open>String.prototype.includes\<close>: the needle occurs as a contiguous run.\<close>

fun includesStr :: "string \<Rightarrow> string \<Rightarrow> bool" where
  "includesStr [] k = (k = [])"
| "includesStr (c # cs) k = (startsWith (c # cs) k \<or> includesStr cs k)"

text \<open>
  The router's regular expressions all have the shape \<open>/\b(k1|k2|...)\b/gi\<close>. A word
  character is one of \<open>[A-Za-z0-9_]\<close>; \<open>\b\<close> holds between two positions exactly one of
  which is a word character (the outside of the string counts as a non-word position).
\<close>

definition isWordChar :: "char \<Rightarrow> bool" where
  "isWordChar c =
     (let n = (of_char c :: nat)
      in (48 \<le> n \<and> n \<le> 57) \<or> (65 \<le> n \<and> n \<le> 90) \<or> n = 95 \<or> (97 \<le> n \<and> n \<le> 122))"

definition isWordPos :: "char option \<Rightarrow> bool" where
  "isWordPos p = (case p of None \<Rightarrow> False | Some c \<Rightarrow> isWordChar c)"

definition wordBoundary :: "char option \<Rightarrow> char option \<Rightarrow> bool" where
  "wordBoundary p q = (isWordPos p \<noteq> isWordPos q)"

text \<open>
  \<open>matchLiteral k prev s\<close>: the keyword \<open>k\<close> matches a prefix of \<open>s\<close> ignoring case;
  the result is the last character consumed (\<open>prev\<close> when nothing was) and the rest.
\<close>

fun matchLiteral :: "string \<Rightarrow> char option \<Rightarrow> string \<Rightarrow> (char option \<times> string) option" where
  "matchLiteral [] prev s = Some (prev, s)"
| "matchLiteral (k # ks) prev [] = None"
| "matchLiteral (k # ks) prev (c # cs) =
     (if toLowerChar c = toLowerChar k then matchLiteral ks (Some c) cs else None)"

text \<open>
  The alternatives are tried in order; one is taken only if the closing \<open>\b\<close> holds after
  it, otherwise the engine backtracks into the next alternative. The result is the length
  of the match.
\<close>

fun matchAlternatives :: "string list \<Rightarrow> char option \<Rightarrow> string \<Rightarrow> nat option" where
  "matchAlternatives [] prev s = None"
| "matchAlternatives (k # ks) prev s =
     (case matchLiteral k prev s of
        None \<Rightarrow> matchAlternatives ks prev s
      | Some (lastc, rest) \<Rightarrow>
          if wordBoundary lastc (case rest of [] \<Rightarrow> None | r # _ \<Rightarrow> Some r)
          then Some (length k)
          else matchAlternatives ks prev s)"

definition matchHere :: "string list \<Rightarrow> char option \<Rightarrow> string \<Rightarrow> nat option" where
  "matchHere alts prev s =
     (if wordBoundary prev (case s of [] \<Rightarrow> None | c # _ \<Rightarrow> Some c)
      then matchAlternatives alts prev s else None)"

text \<open>
  \<open>content.match(pattern)\<close> with the \<open>g\<close> flag: all matches, leftmost first, the search
  resuming where the last match ended. \<open>skip\<close> counts the characters of the current
  match still to be passed over.
\<close>

fun countMatches :: "string list \<Rightarrow> nat \<Rightarrow> char option \<Rightarrow> string \<Rightarrow> nat" where
  "countMatches alts skip prev [] = 0"
| "countMatches alts skip prev (c # cs) =
     (if 0 < skip then countMatches alts (skip - 1) (Some c) cs
      else case matchHere alts prev (c # cs) of
             Some k \<Rightarrow> 1 + countMatches alts (k - 1) (Some c) cs
           | None \<Rightarrow> countMatches alts 0 (Some c) cs)"

definition matchCount :: "string list \<Rightarrow> string \<Rightarrow> nat" where
  "matchCount alts content = countMatches alts 0 None content"

text \<open>\<open>pattern.test(content)\<close> on a freshly built pattern: is there a match at all.\<close>

definition test :: "string list \<Rightarrow> string \<Rightarrow> bool" where
  "test alts content = (0 < matchCount alts content)"

section \<open>IEEE 754 double arithmetic\<close>

text \<open>
  A JavaScript Number is an IEEE 754 binary64 value: a finite value, an infinity or NaN.
  A finite value is kept as the rational it denotes. The two zeros are identified: the
  scorer only adds, subtracts, multiplies, compares, and divides by the literal 10, and
  none of these tells them apart (a division by zero takes the divisor as \<open>+0\<close>).
\<close>

datatype double = Fin rat | PInf | NInf | NaN

definition pow2 :: "int \<Rightarrow> rat" where
  "pow2 k = (if 0 \<le> k then 2 ^ nat k else 1 / 2 ^ nat (- k))"

text \<open>\<open>floorLog2 z\<close> is the integer \<open>k\<close> with \<open>2 ^ k \<le> z < 2 ^ (k + 1)\<close>, for positive \<open>z\<close>.\<close>

definition floorLog2 :: "rat \<Rightarrow> int" where
  "floorLog2 z = (if 1 \<le> z then bitlen \<lfloor>z\<rfloor> - 1 else - bitlen (\<lceil>1 / z\<rceil> - 1))"

definition roundHalfEven :: "rat \<Rightarrow> int" where
  "roundHalfEven q =
     (let f = \<lfloor>q\<rfloor>; r = q - of_int f
      in if r < 1 / 2 then f
         else if 1 / 2 < r then f + 1
         else if even f then f else f + 1)"

text \<open>
  Rounding to nearest, ties to even. The spacing of the doubles around \<open>z\<close> is \<open>2 ^ e\<close>
  with 53 significant bits, and \<open>2 ^ - 1074\<close> in the subnormal range; the multiple of the
  spacing nearest to \<open>z\<close> is taken, and it is an infinity when it reaches \<open>2 ^ 1024\<close>.
\<close>

definition roundToDouble :: "rat \<Rightarrow> double" where
  "roundToDouble z =
     (if z = 0 then Fin 0
      else (let e = max (floorLog2 \<bar>z\<bar> - 52) (- 1074);
                m = roundHalfEven (\<bar>z\<bar> / pow2 e)
            in if 1024 < bitlen m + e then (if 0 < z then PInf else NInf)
               else Fin (sgn z * of_int m * pow2 e)))"

fun dneg :: "double \<Rightarrow> double" where
  "dneg (Fin x) = Fin (- x)"
| "dneg PInf = NInf"
| "dneg NInf = PInf"
| "dneg NaN = NaN"

fun dadd :: "double \<Rightarrow> double \<Rightarrow> double" where
  "dadd (Fin x) (Fin y) = roundToDouble (x + y)"
| "dadd (Fin x) d = d"
| "dadd NaN d = NaN"
| "dadd PInf (Fin y) = PInf"
| "dadd PInf PInf = PInf"
| "dadd PInf d = NaN"
| "dadd NInf (Fin y) = NInf"
| "dadd NInf NInf = NInf"
| "dadd NInf d = NaN"

definition dsub :: "double \<Rightarrow> double \<Rightarrow> double" where
  "dsub a b = dadd a (dneg b)"

definition infOfSign :: "rat \<Rightarrow> double" where
  "infOfSign s = (if s = 0 then NaN else if 0 < s then PInf else NInf)"

fun dsgn :: "double \<Rightarrow> rat" where
  "dsgn (Fin x) = sgn x"
| "dsgn PInf = 1"
| "dsgn NInf = - 1"
| "dsgn NaN = 0"

fun dmul :: "double \<Rightarrow> double \<Rightarrow> double" where
  "dmul (Fin x) (Fin y) = roundToDouble (x * y)"
| "dmul NaN d = NaN"
| "dmul d NaN = NaN"
| "dmul a b = infOfSign (dsgn a * dsgn b)"

fun ddiv :: "double \<Rightarrow> double \<Rightarrow> double" where
  "ddiv (Fin x) (Fin y) = (if y = 0 then infOfSign x else roundToDouble (x / y))"
| "ddiv NaN d = NaN"
| "ddiv d NaN = NaN"
| "ddiv (Fin x) d = Fin 0"
| "ddiv a (Fin y) = infOfSign (dsgn a * (if y < 0 then - 1 else 1))"
| "ddiv a b = NaN"

text \<open>The comparisons \<open><\<close> and \<open><=\<close> of doubles, false when an operand is NaN.\<close>

fun dless :: "double \<Rightarrow> double \<Rightarrow> bool" where
  "dless (Fin x) (Fin y) = (x < y)"
| "dless NaN d = False"
| "dless d NaN = False"
| "dless NInf NInf = False"
| "dless NInf d = True"
| "dless d NInf = False"
| "dless PInf d = False"
| "dless d PInf = True"

definition dle :: "double \<Rightarrow> double \<Rightarrow> bool" where
  "dle a b = (dless a b \<or> (a = b \<and> a \<noteq> NaN))"

text \<open>\<open>v > 0\<close> for the value a comparator returns.\<close>

definition positive :: "double \<Rightarrow> bool" where
  "positive d = (case d of Fin x \<Rightarrow> 0 < x | PInf \<Rightarrow> True | NInf \<Rightarrow> False | NaN \<Rightarrow> False)"

text \<open>
  The finite doubles are multiples of \<open>2 ^ - 1074\<close>; \<open>representable\<close> says that a finite
  value is one. \<open>rank\<close> places the doubles other than NaN in their order.
\<close>

definition onGrid :: "rat \<Rightarrow> bool" where
  "onGrid v = (v / pow2 (- 1074) \<in> \<int>)"

definition representable :: "double \<Rightarrow> bool" where
  "representable d = (case d of Fin v \<Rightarrow> onGrid v | PInf \<Rightarrow> True | NInf \<Rightarrow> True | NaN \<Rightarrow> True)"

definition rank :: "double \<Rightarrow> int \<times> rat" where
  "rank d = (case d of Fin v \<Rightarrow> (0, v) | PInf \<Rightarrow> (1, 0) | NInf \<Rightarrow> (- 1, 0) | NaN \<Rightarrow> (2, 0))"

section \<open>The model router (MultiLLMRouter)\<close>

record performance_stats =
  averageLatency :: rat
  successRate :: rat
  userSatisfaction :: rat
  totalRequests :: nat
  errorCount :: nat

record llm_model =
  name :: string
  mtype :: string
  specialization :: string
  performance :: performance_stats
  maxContextLength :: rat
  modelIsActive :: bool

text \<open>The schema defaults of a model's \<open>performance\<close> sub-document.\<close>

definition freshPerformance :: performance_stats where
  "freshPerformance =
     \<lparr>averageLatency = 0, successRate = 100, userSatisfaction = 5,
      totalRequests = 0, errorCount = 0\<rparr>"

record user_profile =
  up_userId :: string
  preferredLLM :: string

record request_context =
  urgency :: "string option"

record criteria =
  ctype :: string
  complexity :: string
  cdomain :: string
  c_requiresReasoning :: bool
  c_isConversational :: bool
  c_isTechnical :: bool
  c_requiresCreativity :: bool
  contentLength :: nat
  c_urgency :: string

text \<open>
  \<open>llmModels\<close> is a JavaScript \<open>Map\<close>, iterated in insertion order: an association list.
  \<open>loadBalancer\<close> is only ever read and written by key.
\<close>

record router =
  llmModels :: "(string \<times> llm_model) list"
  loadBalancer :: "string \<rightharpoonup> nat"

definition assessComplexity :: "string \<Rightarrow> string" where
  "assessComplexity content =
     (let complexityIndicators =
            [[''analyze'', ''compare'', ''evaluate'', ''synthesize'', ''integrate''],
             [''algorithm'', ''equation'', ''formula'', ''theorem''],
             [''hypothesis'', ''methodology'', ''framework'']];
          complexityScore = foldl (\<lambda>acc pattern. acc + matchCount pattern content) 0 complexityIndicators
      in if 5 < complexityScore then ''high''
         else if 2 < complexityScore then ''medium''
         else ''low'')"

definition domainPatterns :: "(string \<times> string list) list" where
  "domainPatterns =
     [(''engineering'', [''engineering'', ''mechanical'', ''electrical'', ''civil'', ''software'',
                         ''design'', ''circuit'', ''system'']),
      (''mathematics'', [''math'', ''calculus'', ''algebra'', ''geometry'', ''statistics'',
                         ''equation'', ''theorem'']),
      (''science'', [''physics'', ''chemistry'', ''biology'', ''research'', ''experiment'',
                     ''hypothesis'']),
      (''programming'', [''code'', ''programming'', ''algorithm'', ''function'', ''variable'',
                         ''loop'', ''array'']),
      (''business'', [''business'', ''marketing'', ''finance'', ''management'', ''strategy'',
                      ''revenue''])]"

definition identifyDomain :: "string \<Rightarrow> string" where
  "identifyDomain content =
     (case find (\<lambda>(domain, pattern). test pattern content) domainPatterns of
        Some (domain, pattern) \<Rightarrow> domain
      | None \<Rightarrow> ''general'')"

definition requiresReasoning :: "string \<Rightarrow> bool" where
  "requiresReasoning content =
     test [''why'', ''how'', ''analyze'', ''explain'', ''compare'', ''evaluate'', ''reason'',
           ''logic'', ''cause'', ''effect''] content"

definition isConversational :: "string \<Rightarrow> bool" where
  "isConversational requestType = (requestType \<in> set [''chat'', ''conversation'', ''casual''])"

definition isTechnical :: "string \<Rightarrow> bool" where
  "isTechnical content =
     test [''technical'', ''specification'', ''implementation'', ''architecture'', ''protocol'',
           ''algorithm''] content"

definition requiresCreativity :: "string \<Rightarrow> bool" where
  "requiresCreativity requestType =
     (requestType \<in> set [''creative'', ''content_generation'', ''story'', ''poem'', ''presentation''])"

definition analyzeRequestCriteria :: "string \<Rightarrow> string \<Rightarrow> request_context \<Rightarrow> criteria" where
  "analyzeRequestCriteria requestType content context =
     \<lparr>ctype = requestType,
      complexity = assessComplexity content,
      cdomain = identifyDomain content,
      c_requiresReasoning = requiresReasoning content,
      c_isConversational = isConversational requestType,
      c_isTechnical = isTechnical content,
      c_requiresCreativity = requiresCreativity requestType,
      contentLength = length content,
      c_urgency = (case urgency context of None \<Rightarrow> ''normal''
                   | Some u \<Rightarrow> if u = [] then ''normal'' else u)\<rparr>"

text \<open>The \<open>switch\<close> on \<open>criteria.type\<close>: does it add 50 to the score.\<close>

definition specializationHit :: "string \<Rightarrow> string \<Rightarrow> bool" where
  "specializationHit t spec =
     (if t = ''chat'' \<or> t = ''conversation'' then spec = ''chat''
      else if t = ''reasoning'' \<or> t = ''analysis'' \<or> t = ''problem_solving''
        then spec = ''reasoning''
      else if t = ''technical'' \<or> t = ''code'' \<or> t = ''engineering''
        then spec = ''technical''
      else if t = ''creative'' \<or> t = ''content_generation''
        then spec = ''creative''
      else if t = ''academic'' \<or> t = ''educational''
        then spec = ''academic''
      else False)"

text \<open>
  The score is computed in double arithmetic, every operation rounding its result, in the
  order of the source. A statistic enters as the double it is stored as (the double nearest
  to the rational, which is the rational itself when that is a double); the integer literals
  are doubles, the literal \<open>0.3\<close> is the double nearest to 3/10. The comparison of the
  content length with the context length is exact.
\<close>

definition calculateModelScore ::
  "(string \<rightharpoonup> nat) \<Rightarrow> llm_model \<Rightarrow> criteria \<Rightarrow> user_profile option \<Rightarrow> double" where
  "calculateModelScore lb model crit userProfile =
     (let score0 = Fin 0;
          score1 = (if specializationHit (ctype crit) (specialization model)
                    then dadd score0 (Fin 50) else score0);
          score2 = dadd score1
                     (dsub (Fin 100)
                        (ddiv (roundToDouble (averageLatency (performance model))) (Fin 10)));
          score3 = dadd score2
                     (dmul (roundToDouble (successRate (performance model))) (roundToDouble (3 / 10)));
          score4 = dadd score3 (dmul (roundToDouble (userSatisfaction (performance model))) (Fin 10));
          score5 = (case userProfile of
                      None \<Rightarrow> score4
                    | Some p \<Rightarrow> if preferredLLM p = mtype model then dadd score4 (Fin 20) else score4);
          currentLoad = (case lb (name model) of None \<Rightarrow> 0 | Some l \<Rightarrow> l);
          score6 = dsub score5 (dmul (roundToDouble (of_nat currentLoad)) (Fin 2));
          score7 = (if of_nat (contentLength crit) > maxContextLength model
                    then dsub score6 (Fin 100) else score6)
      in score7)"

text \<open>
  \<open>modelScores.sort((a, b) => b.score - a.score)\<close>. The comparator returns a double; the
  sort puts \<open>b\<close> before \<open>a\<close> when the value is positive, \<open>a\<close> before \<open>b\<close> when it is
  negative, and takes the two as equal when it is zero or NaN. \<open>Array.prototype.sort\<close> is
  stable, so for a consistent comparator its result is the one of this stable insertion
  sort; with NaN among the scores the comparator is not consistent and the language leaves
  the order to the implementation.
\<close>

definition compareFn :: "'a \<times> double \<Rightarrow> 'a \<times> double \<Rightarrow> double" where
  "compareFn a b = dsub (snd b) (snd a)"

fun insertSorted :: "'a \<times> double \<Rightarrow> ('a \<times> double) list \<Rightarrow> ('a \<times> double) list" where
  "insertSorted x [] = [x]"
| "insertSorted x (y # ys) =
     (if positive (compareFn x y) then y # insertSorted x ys else x # y # ys)"

definition sortByScore :: "('a \<times> double) list \<Rightarrow> ('a \<times> double) list" where
  "sortByScore xs = foldr insertSorted xs []"

definition selectOptimalModel ::
  "router \<Rightarrow> string \<Rightarrow> string \<Rightarrow> user_profile option \<Rightarrow> request_context \<Rightarrow> llm_model option" where
  "selectOptimalModel r requestType content userProfile context =
     (let crit = analyzeRequestCriteria requestType content context;
          availableModels = map snd (llmModels r);
          modelScores = map (\<lambda>model. (model, calculateModelScore (loadBalancer r) model crit userProfile))
                            availableModels;
          sorted = sortByScore modelScores
      in case sorted of [] \<Rightarrow> None | p # _ \<Rightarrow> Some (fst p))"

text \<open>
  \<open>routeRequest\<close>: the profile store stands for \<open>UserProfile.findOne\<close>. A \<open>null\<close>
  selection is the only way to the error. A counter that was never set would become
  \<open>NaN\<close>, which every reader turns into 0 through \<open>|| 0\<close> and which stays \<open>NaN\<close> when
  incremented: the model leaves such a counter absent.
\<close>

datatype router_error = NoSuitableModel

record route_result =
  rr_model :: llm_model
  routingReason :: string
  estimatedLatency :: rat

definition getRoutingReason :: "string \<Rightarrow> llm_model \<Rightarrow> string" where
  "getRoutingReason requestType selectedModel =
     ''Selected '' @ name selectedModel @ '' ('' @ mtype selectedModel @ '') for '' @ requestType
       @ '' based on specialization: '' @ specialization selectedModel"

definition routeRequest ::
  "router \<Rightarrow> (string \<rightharpoonup> user_profile) \<Rightarrow> string \<Rightarrow> string \<Rightarrow> string \<Rightarrow> request_context
     \<Rightarrow> (router_error + route_result) \<times> router" where
  "routeRequest r profiles requestType content uid context =
     (let userProfile = profiles uid
      in case selectOptimalModel r requestType content userProfile context of
           None \<Rightarrow> (Inl NoSuitableModel, r)
         | Some selectedModel \<Rightarrow>
             (Inr \<lparr>rr_model = selectedModel,
                   routingReason = getRoutingReason requestType selectedModel,
                   estimatedLatency = averageLatency (performance selectedModel)\<rparr>,
              r\<lparr>loadBalancer :=
                   (case loadBalancer r (name selectedModel) of
                      None \<Rightarrow> loadBalancer r
                    | Some l \<Rightarrow> (loadBalancer r)(name selectedModel \<mapsto> l + 1))\<rparr>))"

text \<open>
  \<open>updateModelPerformance\<close> works on the stored documents (\<open>LLMModel.findOne\<close>, then
  \<open>save\<close>), keyed by the unique model name. \<open>if (metrics.userRating)\<close> is false for a
  missing rating and for 0.
\<close>

record metrics =
  latency :: rat
  success :: bool
  userRating :: "rat option"

definition updateModelPerformance ::
  "(string \<rightharpoonup> llm_model) \<Rightarrow> string \<Rightarrow> metrics \<Rightarrow> (string \<rightharpoonup> llm_model)" where
  "updateModelPerformance db modelName m =
     (case db modelName of
        None \<Rightarrow> db
      | Some model \<Rightarrow>
          (let p0 = performance model;
               p1 = p0\<lparr>totalRequests := totalRequests p0 + 1\<rparr>;
               p2 = p1\<lparr>averageLatency :=
                         (averageLatency p1 * (of_nat (totalRequests p1) - 1) + latency m)
                           / of_nat (totalRequests p1)\<rparr>;
               p3 = (if success m
                     then p2\<lparr>successRate :=
                                (successRate p2 * (of_nat (totalRequests p2) - 1) + 100)
                                  / of_nat (totalRequests p2)\<rparr>
                     else (let q = p2\<lparr>errorCount := errorCount p2 + 1\<rparr>
                           in q\<lparr>successRate :=
                                   (successRate q * (of_nat (totalRequests q) - 1))
                                     / of_nat (totalRequests q)\<rparr>));
               p4 = (case userRating m of
                       None \<Rightarrow> p3
                     | Some rating \<Rightarrow>
                         if rating = 0 then p3
                         else p3\<lparr>userSatisfaction :=
                                    (userSatisfaction p3 * (of_nat (totalRequests p3) - 1) + rating)
                                      / of_nat (totalRequests p3)\<rparr>)
           in db(modelName \<mapsto> model\<lparr>performance := p4\<rparr>)))"

text \<open>A sequence of outcome reports for one model, applied in order.\<close>

definition recordOutcomes ::
  "(string \<rightharpoonup> llm_model) \<Rightarrow> string \<Rightarrow> metrics list \<Rightarrow> (string \<rightharpoonup> llm_model)" where
  "recordOutcomes db modelName ms = foldl (\<lambda>d m. updateModelPerformance d modelName m) db ms"

subsection \<open>The scoring rule as the specification words it\<close>

definition specializationTable :: "(string list \<times> string) list" where
  "specializationTable =
     [([''chat'', ''conversation''], ''chat''),
      ([''reasoning'', ''analysis'', ''problem_solving''], ''reasoning''),
      ([''technical'', ''code'', ''engineering''], ''technical''),
      ([''creative'', ''content_generation''], ''creative''),
      ([''academic'', ''educational''], ''academic'')]"

definition specializationMatches :: "string \<Rightarrow> string \<Rightarrow> bool" where
  "specializationMatches requestType spec =
     list_ex (\<lambda>(types, s). requestType \<in> set types \<and> spec = s) specializationTable"

text \<open>
  The score without the context-length term, then with it: the terms of the specification
  in its order, in double arithmetic.
\<close>

definition baseScore :: "nat \<Rightarrow> string option \<Rightarrow> string \<Rightarrow> llm_model \<Rightarrow> double" where
  "baseScore load preferred requestType model =
     (let bonus = (if specializationMatches requestType (specialization model) then Fin 50 else Fin 0);
          s2 = dadd bonus
                 (dsub (Fin 100) (ddiv (roundToDouble (averageLatency (performance model))) (Fin 10)));
          s3 = dadd s2 (dmul (roundToDouble (successRate (performance model))) (roundToDouble (3 / 10)));
          s4 = dadd s3 (dmul (roundToDouble (userSatisfaction (performance model))) (Fin 10));
          s5 = (if preferred = Some (mtype model) then dadd s4 (Fin 20) else s4)
      in dsub s5 (dmul (roundToDouble (of_nat load)) (Fin 2)))"

definition specScore :: "nat \<Rightarrow> string option \<Rightarrow> string \<Rightarrow> nat \<Rightarrow> llm_model \<Rightarrow> double" where
  "specScore load preferred requestType len model =
     (if of_nat len > maxContextLength model
      then dsub (baseScore load preferred requestType model) (Fin 100)
      else baseScore load preferred requestType model)"

definition currentLoad :: "router \<Rightarrow> llm_model \<Rightarrow> nat" where
  "currentLoad r model = (case loadBalancer r (name model) of None \<Rightarrow> 0 | Some l \<Rightarrow> l)"

text \<open>The score \<open>selectOptimalModel\<close> gives a model for a request.\<close>

definition scoreOf ::
  "router \<Rightarrow> string \<Rightarrow> string \<Rightarrow> user_profile option \<Rightarrow> request_context \<Rightarrow> llm_model \<Rightarrow> double" where
  "scoreOf r requestType content userProfile context model =
     calculateModelScore (loadBalancer r) model
       (analyzeRequestCriteria requestType content context) userProfile"

text \<open>The running mean of the specification.\<close>

definition incrementalMean :: "rat \<Rightarrow> nat \<Rightarrow> rat \<Rightarrow> rat" where
  "incrementalMean oldMean n sample = (oldMean * (of_nat n - 1) + sample) / of_nat n"

subsection \<open>A small registry used in the examples\<close>

definition chatModelA :: llm_model where
  "chatModelA = \<lparr>name = ''alpha'', mtype = ''gemini'', specialization = ''chat'',
                  performance = freshPerformance, maxContextLength = 4096, modelIsActive = True\<rparr>"

definition chatModelB :: llm_model where
  "chatModelB = \<lparr>name = ''beta'', mtype = ''llama'', specialization = ''chat'',
                  performance = freshPerformance, maxContextLength = 4096, modelIsActive = True\<rparr>"

definition technicalModel :: llm_model where
  "technicalModel = \<lparr>name = ''gamma'', mtype = ''qwen'', specialization = ''technical'',
                      performance = freshPerformance, maxContextLength = 3, modelIsActive = True\<rparr>"

definition exampleRouter :: router where
  "exampleRouter =
     \<lparr>llmModels = [(''gamma'', technicalModel), (''alpha'', chatModelA), (''beta'', chatModelB)],
      loadBalancer = [''gamma'' \<mapsto> 0, ''alpha'' \<mapsto> 0, ''beta'' \<mapsto> 0]\<rparr>"

definition smallRouter :: router where
  "smallRouter = \<lparr>llmModels = [(''gamma'', technicalModel)], loadBalancer = [''gamma'' \<mapsto> 0]\<rparr>"

text \<open>
  Two models whose exact scores are equal (693/5) and whose double scores are not: the
  second one's is the larger.
\<close>

definition steadyModel :: llm_model where
  "steadyModel = \<lparr>name = ''steady'', mtype = ''llama'', specialization = ''academic'',
                   performance = \<lparr>averageLatency = 100, successRate = 62, userSatisfaction = 3,
                                  totalRequests = 50, errorCount = 19\<rparr>,
                   maxContextLength = 4096, modelIsActive = True\<rparr>"

definition slowerModel :: llm_model where
  "slowerModel = \<lparr>name = ''slower'', mtype = ''qwen'', specialization = ''academic'',
                   performance = \<lparr>averageLatency = 106, successRate = 64, userSatisfaction = 3,
                                  totalRequests = 50, errorCount = 18\<rparr>,
                   maxContextLength = 4096, modelIsActive = True\<rparr>"

definition roundingRouter :: router where
  "roundingRouter =
     \<lparr>llmModels = [(''steady'', steadyModel), (''slower'', slowerModel)],
      loadBalancer = [''steady'' \<mapsto> 0, ''slower'' \<mapsto> 0]\<rparr>"

text \<open>A registry of two models whose context lengths are 3 and 4.\<close>

definition tinyChatModel :: llm_model where
  "tinyChatModel = \<lparr>name = ''delta'', mtype = ''gemini'', specialization = ''chat'',
                     performance = freshPerformance, maxContextLength = 4, modelIsActive = True\<rparr>"

definition tinyRouter :: router where
  "tinyRouter =
     \<lparr>llmModels = [(''gamma'', technicalModel), (''delta'', tinyChatModel)],
      loadBalancer = [''gamma'' \<mapsto> 0, ''delta'' \<mapsto> 0]\<rparr>"

definition normalContext :: request_context where
  "normalContext = \<lparr>urgency = None\<rparr>"

definition exampleDb :: "string \<rightharpoonup> llm_model" where
  "exampleDb = [''alpha'' \<mapsto> chatModelA]"

definition exampleOutcomes :: "metrics list" where
  "exampleOutcomes =
     [\<lparr>latency = 100, success = True, userRating = None\<rparr>,
      \<lparr>latency = 200, success = False, userRating = Some 4\<rparr>,
      \<lparr>latency = 600, success = True, userRating = None\<rparr>]"

section \<open>The agent protocol (MCPProtocol)\<close>

text \<open>
  \<open>uuidv4()\<close> is modelled by a counter in the state: every call returns a value no
  earlier call returned. An agent instance id \<open>`${agentId}_${uuidv4()}`\<close> is the pair of
  the template id and the fresh value. The thrown \<open>Error\<close> objects are the constructors of
  \<open>mcp_error\<close>, one per message text:
  \<open>'Invalid or inactive session'\<close>, \<open>`Agent ${agentId} not found`\<close>,
  \<open>'Maximum number of agents reached for this session'\<close> and
  \<open>`Agent ${step.agent} not found in session`\<close>.
\<close>

type_synonym uuid = nat

type_synonym instance_id = "string \<times> uuid"

datatype mcp_error =
    InvalidOrInactiveSession
  | AgentNotFound string
  | MaxAgentsReached
  | AgentNotInSession string

datatype config_value = CNum rat | CStr string | CBool bool

record agent_definition =
  agentName :: string
  description :: string
  capabilities :: "string list"
  agentTools :: "string list"
  defaultConfig :: "string \<rightharpoonup> config_value"

record action_result =
  ar_action :: string
  ar_agentId :: string
  ar_instanceId :: instance_id
  ar_data :: string

text \<open>An agent instance; its \<open>memory\<close> map is created empty and never written.\<close>

record agent_instance =
  ai_instanceId :: instance_id
  ai_agentId :: string
  ai_sessionId :: uuid
  ai_config :: "string \<rightharpoonup> config_value"
  ai_state :: string
  ai_capabilities :: "string list"
  ai_availableTools :: "string list"
  executionHistory :: "action_result list"

text \<open>
  The session context. \<open>agentContexts\<close> is a \<open>Map\<close> in insertion order. The other members
  (\<open>globalContext\<close>, \<open>sharedMemory\<close>, \<open>executionStack\<close>, \<open>currentTask\<close>) are created
  empty and never written, and are left out.
\<close>

record session_context =
  ctx_sessionId :: uuid
  agentContexts :: "(instance_id \<times> agent_instance) list"

record session_config =
  maxAgents :: int
  maxTools :: int
  timeout :: int

text \<open>The caller's \<open>sessionConfig\<close> object: each key may be missing.\<close>

record session_config_arg =
  arg_maxAgents :: "int option"
  arg_maxTools :: "int option"
  arg_timeout :: "int option"

record mcp_message =
  messageId :: uuid
  msg_sessionId :: uuid
  msg_content :: string
  msg_sender :: string
  msg_type :: string
  msg_metadata :: "(string \<times> string) list"

record message_options =
  opt_sender :: "string option"
  opt_type :: "string option"
  opt_metadata :: "(string \<times> string) list option"

record session =
  s_sessionId :: uuid
  s_userId :: string
  config :: session_config
  activeAgents :: "instance_id list"
  availableTools :: "string list"
  sessionContext :: session_context
  messageHistory :: "mcp_message list"
  isActive :: bool

datatype event =
    SessionCreated uuid string
  | AgentSpawned uuid instance_id string
  | MessageProcessed uuid uuid
  | SessionClosed uuid

text \<open>
  The protocol object. A session object lives in the \<open>sessions\<close> map and is never removed
  from it; the functions that receive a session object in the source receive its key here
  and read the object from the map. \<open>this.contexts\<close> maps a session id to the very object
  that \<open>session.context\<close> holds, so the model keeps the object in the session and in
  \<open>contexts\<close> the ids that have an entry. \<open>emitted\<close> is the sequence of events emitted.
\<close>

record mcp_state =
  sessions :: "uuid \<rightharpoonup> session"
  agents :: "string \<rightharpoonup> agent_definition"
  tools :: "string list"
  contexts :: "uuid set"
  uuidCounter :: nat
  emitted :: "event list"

definition uuidv4 :: "mcp_state \<Rightarrow> uuid \<times> mcp_state" where
  "uuidv4 st = (uuidCounter st, st\<lparr>uuidCounter := Suc (uuidCounter st)\<rparr>)"

text \<open>\<open>Set.prototype.add\<close> on a set kept in insertion order.\<close>

definition setAdd :: "'a list \<Rightarrow> 'a \<Rightarrow> 'a list" where
  "setAdd xs x = (if x \<in> set xs then xs else xs @ [x])"

definition registerTool :: "mcp_state \<Rightarrow> string \<Rightarrow> mcp_state" where
  "registerTool st toolId = st\<lparr>tools := setAdd (tools st) toolId\<rparr>"

definition registerAgent :: "mcp_state \<Rightarrow> string \<Rightarrow> agent_definition \<Rightarrow> mcp_state" where
  "registerAgent st agentId agentDefinition = st\<lparr>agents := (agents st)(agentId \<mapsto> agentDefinition)\<rparr>"

definition createResearchAgent :: agent_definition where
  "createResearchAgent =
     \<lparr>agentName = ''Research Agent'',
      description = ''Specialized in information gathering and research'',
      capabilities = [''web_search'', ''data_collection'', ''source_verification''],
      agentTools = [''web_search'', ''file_analysis''],
      defaultConfig = [''maxSources'' \<mapsto> CNum 10, ''searchDepth'' \<mapsto> CStr ''comprehensive'',
                       ''verifyFacts'' \<mapsto> CBool True]\<rparr>"

definition createAnalysisAgent :: agent_definition where
  "createAnalysisAgent =
     \<lparr>agentName = ''Analysis Agent'',
      description = ''Specialized in data analysis and pattern recognition'',
      capabilities = [''data_analysis'', ''pattern_recognition'', ''insight_generation''],
      agentTools = [''file_analysis'', ''calculation''],
      defaultConfig = [''analysisDepth'' \<mapsto> CStr ''detailed'', ''includeVisualization'' \<mapsto> CBool False,
                       ''confidenceThreshold'' \<mapsto> CNum (8 / 10)]\<rparr>"

definition createCreativeAgent :: agent_definition where
  "createCreativeAgent =
     \<lparr>agentName = ''Creative Agent'',
      description = ''Specialized in content creation and creative tasks'',
      capabilities = [''content_generation'', ''creative_writing'', ''ideation''],
      agentTools = [''content_generation''],
      defaultConfig = [''creativityLevel'' \<mapsto> CStr ''high'', ''tone'' \<mapsto> CStr ''professional'',
                       ''includeExamples'' \<mapsto> CBool True]\<rparr>"

definition createProblemSolverAgent :: agent_definition where
  "createProblemSolverAgent =
     \<lparr>agentName = ''Problem Solver Agent'',
      description = ''Specialized in problem-solving and logical reasoning'',
      capabilities = [''logical_reasoning'', ''problem_decomposition'', ''solution_synthesis''],
      agentTools = [''calculation'', ''code_execution''],
      defaultConfig = [''approachStyle'' \<mapsto> CStr ''systematic'', ''showWorkingSteps'' \<mapsto> CBool True,
                       ''verifyResults'' \<mapsto> CBool True]\<rparr>"

text \<open>The constructor followed by \<open>initializeProtocol\<close>.\<close>

definition initializeProtocol :: mcp_state where
  "initializeProtocol =
     (let st0 = \<lparr>sessions = Map.empty, agents = Map.empty, tools = [], contexts = {},
                 uuidCounter = 0, emitted = []\<rparr>;
          st1 = registerTool st0 ''web_search'';
          st2 = registerTool st1 ''file_analysis'';
          st3 = registerTool st2 ''content_generation'';
          st4 = registerTool st3 ''calculation'';
          st5 = registerTool st4 ''code_execution'';
          st6 = registerAgent st5 ''research_agent'' createResearchAgent;
          st7 = registerAgent st6 ''analysis_agent'' createAnalysisAgent;
          st8 = registerAgent st7 ''creative_agent'' createCreativeAgent;
          st9 = registerAgent st8 ''problem_solver_agent'' createProblemSolverAgent
      in st9)"

definition createSessionContext :: "mcp_state \<Rightarrow> uuid \<Rightarrow> session_context \<times> mcp_state" where
  "createSessionContext st sessionId =
     (\<lparr>ctx_sessionId = sessionId, agentContexts = []\<rparr>,
      st\<lparr>contexts := insert sessionId (contexts st)\<rparr>)"

text \<open>
  \<open>x || d\<close> on an optional number: the default for a missing key and for 0. The spread
  \<open>...sessionConfig\<close> then writes every key the caller gave over the defaulted one.
\<close>

definition orDefault :: "int option \<Rightarrow> int \<Rightarrow> int" where
  "orDefault x d = (case x of None \<Rightarrow> d | Some v \<Rightarrow> if v = 0 then d else v)"

definition spread :: "int option \<Rightarrow> int \<Rightarrow> int" where
  "spread x v = (case x of None \<Rightarrow> v | Some w \<Rightarrow> w)"

definition createSession :: "mcp_state \<Rightarrow> string \<Rightarrow> session_config_arg \<Rightarrow> uuid \<times> mcp_state" where
  "createSession st userId sessionConfig =
     (let (sessionId, st1) = uuidv4 st;
          cfg = \<lparr>maxAgents = spread (arg_maxAgents sessionConfig) (orDefault (arg_maxAgents sessionConfig) 5),
                 maxTools = spread (arg_maxTools sessionConfig) (orDefault (arg_maxTools sessionConfig) 10),
                 timeout = spread (arg_timeout sessionConfig) (orDefault (arg_timeout sessionConfig) 300000)\<rparr>;
          (ctx, st2) = createSessionContext st1 sessionId;
          session = \<lparr>s_sessionId = sessionId, s_userId = userId, config = cfg, activeAgents = [],
                     availableTools = tools st1, sessionContext = ctx, messageHistory = [],
                     isActive = True\<rparr>;
          st3 = st2\<lparr>sessions := (sessions st2)(sessionId \<mapsto> session)\<rparr>;
          st4 = st3\<lparr>emitted := emitted st3 @ [SessionCreated sessionId userId]\<rparr>
      in (sessionId, st4))"

definition spawnAgent ::
  "mcp_state \<Rightarrow> uuid \<Rightarrow> string \<Rightarrow> (string \<rightharpoonup> config_value) \<Rightarrow> (mcp_error + instance_id) \<times> mcp_state" where
  "spawnAgent st sessionId agentId agentConfig =
     (case sessions st sessionId of
        None \<Rightarrow> (Inl InvalidOrInactiveSession, st)
      | Some session \<Rightarrow>
          if \<not> isActive session then (Inl InvalidOrInactiveSession, st)
          else (case agents st agentId of
                  None \<Rightarrow> (Inl (AgentNotFound agentId), st)
                | Some agentDefinition \<Rightarrow>
                    if int (length (activeAgents session)) \<ge> maxAgents (config session)
                    then (Inl MaxAgentsReached, st)
                    else (let (u, st1) = uuidv4 st;
                              agentInstanceId = (agentId, u);
                              agentInstance =
                                \<lparr>ai_instanceId = agentInstanceId, ai_agentId = agentId,
                                 ai_sessionId = sessionId,
                                 ai_config = defaultConfig agentDefinition ++ agentConfig,
                                 ai_state = ''idle'',
                                 ai_capabilities = capabilities agentDefinition,
                                 ai_availableTools = foldl setAdd [] (agentTools agentDefinition),
                                 executionHistory = []\<rparr>;
                              ctx = sessionContext session;
                              session1 = session
                                \<lparr>activeAgents := setAdd (activeAgents session) agentInstanceId,
                                 sessionContext := ctx
                                   \<lparr>agentContexts :=
                                      AList.update agentInstanceId agentInstance (agentContexts ctx)\<rparr>\<rparr>;
                              st2 = st1\<lparr>sessions := (sessions st1)(sessionId \<mapsto> session1)\<rparr>;
                              st3 = st2\<lparr>emitted := emitted st2
                                          @ [AgentSpawned sessionId agentInstanceId agentId]\<rparr>
                          in (Inr agentInstanceId, st3))))"

subsection \<open>Intent analysis and routing plan\<close>

record intent =
  intentType :: string
  confidence :: rat
  entities :: "string list"
  requiredCapabilities :: "string list"
  intentComplexity :: string

definition analyzeIntent :: "string \<Rightarrow> session_context \<Rightarrow> intent" where
  "analyzeIntent message ctx =
     (let intent0 = \<lparr>intentType = ''unknown'', confidence = 5 / 10, entities = [],
                     requiredCapabilities = [], intentComplexity = ''medium''\<rparr>;
          keywords = toLowerCase message;
          intent1 =
            (if includesStr keywords ''search'' \<or> includesStr keywords ''find''
                \<or> includesStr keywords ''look up''
             then intent0\<lparr>intentType := ''information_retrieval'',
                          requiredCapabilities := [''web_search'', ''data_analysis''],
                          confidence := 8 / 10\<rparr>
             else if includesStr keywords ''analyze'' \<or> includesStr keywords ''examine''
                \<or> includesStr keywords ''study''
             then intent0\<lparr>intentType := ''analysis'',
                          requiredCapabilities := [''data_analysis'', ''pattern_recognition''],
                          confidence := 8 / 10\<rparr>
             else if includesStr keywords ''create'' \<or> includesStr keywords ''generate''
                \<or> includesStr keywords ''make''
             then intent0\<lparr>intentType := ''content_creation'',
                          requiredCapabilities := [''content_generation'', ''creative_writing''],
                          confidence := 8 / 10\<rparr>
             else if includesStr keywords ''solve'' \<or> includesStr keywords ''calculate''
                \<or> includesStr keywords ''compute''
             then intent0\<lparr>intentType := ''problem_solving'',
                          requiredCapabilities := [''calculation'', ''logical_reasoning''],
                          confidence := 8 / 10\<rparr>
             else if includesStr keywords ''explain'' \<or> includesStr keywords ''teach''
                \<or> includesStr keywords ''how''
             then intent0\<lparr>intentType := ''educational'',
                          requiredCapabilities := [''knowledge_synthesis'', ''explanation''],
                          confidence := 7 / 10\<rparr>
             else intent0);
          intent2 =
            (if 500 < length message \<or> includesStr keywords ''complex''
                \<or> includesStr keywords ''detailed''
             then intent1\<lparr>intentComplexity := ''high''\<rparr>
             else if length message < 50 then intent1\<lparr>intentComplexity := ''low''\<rparr>
             else intent1)
      in intent2)"

record step =
  action :: string
  agent :: string
  stepTools :: "string list"

record plan =
  planId :: uuid
  planIntent :: intent
  steps :: "step list"
  estimatedDuration :: nat
  requiredAgents :: "string list"
  requiredTools :: "string list"

definition createRoutingPlan :: "mcp_state \<Rightarrow> intent \<Rightarrow> uuid \<Rightarrow> plan \<times> mcp_state" where
  "createRoutingPlan st intent sessionId =
     (let (pid, st1) = uuidv4 st;
          plan0 = \<lparr>planId = pid, planIntent = intent, steps = [], estimatedDuration = 0,
                   requiredAgents = [], requiredTools = []\<rparr>;
          t = intentType intent;
          plan1 =
            (if t = ''information_retrieval''
             then plan0\<lparr>requiredAgents := [''research_agent''],
                        requiredTools := [''web_search''],
                        steps := [\<lparr>action = ''search_information'', agent = ''research_agent'',
                                    stepTools = [''web_search'']\<rparr>,
                                  \<lparr>action = ''synthesize_results'', agent = ''analysis_agent'',
                                    stepTools = [''content_generation'']\<rparr>]\<rparr>
             else if t = ''analysis''
             then plan0\<lparr>requiredAgents := [''analysis_agent''],
                        requiredTools := [''file_analysis'', ''calculation''],
                        steps := [\<lparr>action = ''analyze_data'', agent = ''analysis_agent'',
                                    stepTools = [''file_analysis'']\<rparr>,
                                  \<lparr>action = ''generate_insights'', agent = ''analysis_agent'',
                                    stepTools = [''calculation'']\<rparr>]\<rparr>
             else if t = ''content_creation''
             then plan0\<lparr>requiredAgents := [''creative_agent''],
                        requiredTools := [''content_generation''],
                        steps := [\<lparr>action = ''plan_content'', agent = ''creative_agent'',
                                    stepTools = []\<rparr>,
                                  \<lparr>action = ''generate_content'', agent = ''creative_agent'',
                                    stepTools = [''content_generation'']\<rparr>]\<rparr>
             else if t = ''problem_solving''
             then plan0\<lparr>requiredAgents := [''problem_solver_agent''],
                        requiredTools := [''calculation'', ''code_execution''],
                        steps := [\<lparr>action = ''analyze_problem'', agent = ''problem_solver_agent'',
                                    stepTools = []\<rparr>,
                                  \<lparr>action = ''solve_problem'', agent = ''problem_solver_agent'',
                                    stepTools = [''calculation'', ''code_execution'']\<rparr>]\<rparr>
             else plan0\<lparr>requiredAgents := [''research_agent'', ''analysis_agent''],
                        requiredTools := [''web_search'', ''content_generation''],
                        steps := [\<lparr>action = ''gather_information'', agent = ''research_agent'',
                                    stepTools = [''web_search'']\<rparr>,
                                  \<lparr>action = ''process_response'', agent = ''analysis_agent'',
                                    stepTools = [''content_generation'']\<rparr>]\<rparr>)
      in (plan1\<lparr>estimatedDuration := length (steps plan1) * 5000\<rparr>, st1))"

subsection \<open>Plan execution\<close>

record step_execution =
  stepId :: uuid
  se_action :: string
  se_agentId :: string
  se_tools :: "string list"
  se_status :: string
  se_result :: action_result

record execution =
  ex_planId :: uuid
  ex_sessionId :: uuid
  ex_steps :: "step_execution list"
  ex_results :: "action_result list"
  ex_status :: string
  ex_error :: "mcp_error option"

record plan_metadata =
  md_planId :: uuid
  stepsExecuted :: nat
  agentsUsed :: "string list"
  toolsUsed :: "string list"

record plan_result =
  response :: string
  pr_execution :: execution
  pr_metadata :: plan_metadata

definition performWebSearch :: "string list \<Rightarrow> string" where
  "performWebSearch ts =
     (if ''web_search'' \<in> set ts then ''Performed web search and found relevant information.''
      else ''Web search not available.'')"

definition performDataAnalysis :: "string list \<Rightarrow> string" where
  "performDataAnalysis ts =
     (if ''file_analysis'' \<in> set ts then ''Analyzed data and identified key patterns.''
      else ''Data analysis not available.'')"

definition performContentGeneration :: "string list \<Rightarrow> string" where
  "performContentGeneration ts =
     (if ''content_generation'' \<in> set ts
      then ''Generated comprehensive content based on requirements.''
      else ''Content generation not available.'')"

definition performProblemSolving :: "string list \<Rightarrow> string" where
  "performProblemSolving ts =
     (if ''calculation'' \<in> set ts then ''Solved the problem using mathematical analysis.''
      else ''Problem solving tools not available.'')"

text \<open>
  \<open>executeAgentAction\<close> appends the result to the history of the instance it was given,
  the object stored in the session's \<open>agentContexts\<close> under the instance id.
\<close>

definition pushHistory ::
  "instance_id \<Rightarrow> action_result \<Rightarrow> (instance_id \<times> agent_instance) list
     \<Rightarrow> (instance_id \<times> agent_instance) list" where
  "pushHistory iid r acs =
     map (\<lambda>(k, a). if k = iid then (k, a\<lparr>executionHistory := executionHistory a @ [r]\<rparr>)
                    else (k, a)) acs"

definition executeAgentAction ::
  "mcp_state \<Rightarrow> uuid \<Rightarrow> agent_instance \<Rightarrow> string \<Rightarrow> string list \<Rightarrow> action_result \<times> mcp_state" where
  "executeAgentAction st sessionId agentInstance act ts =
     (let d = (if act = ''search_information'' then performWebSearch ts
               else if act = ''analyze_data'' then performDataAnalysis ts
               else if act = ''generate_content'' then performContentGeneration ts
               else if act = ''solve_problem'' then performProblemSolving ts
               else ''Executed '' @ act @ '' with agent '' @ ai_agentId agentInstance);
          actionResult = \<lparr>ar_action = act, ar_agentId = ai_agentId agentInstance,
                          ar_instanceId = ai_instanceId agentInstance, ar_data = d\<rparr>
      in (actionResult,
          (case sessions st sessionId of
             None \<Rightarrow> st
           | Some session \<Rightarrow>
               st\<lparr>sessions := (sessions st)(sessionId \<mapsto>
                    session\<lparr>sessionContext := (sessionContext session)
                      \<lparr>agentContexts :=
                         pushHistory (ai_instanceId agentInstance) actionResult
                           (agentContexts (sessionContext session))\<rparr>\<rparr>)\<rparr>)))"

text \<open>The first instance of a template in the session's context, in insertion order.\<close>

definition findAgentInstance :: "session \<Rightarrow> string \<Rightarrow> agent_instance option" where
  "findAgentInstance session agentId =
     find (\<lambda>a. ai_agentId a = agentId) (map snd (agentContexts (sessionContext session)))"

text \<open>
  \<open>executeStep\<close> returns the completed step record or throws. The record of a failed step
  is filled in by the \<open>catch\<close> block and then dropped with the rethrow, so the model
  returns only the error.
\<close>

definition executeStep ::
  "mcp_state \<Rightarrow> uuid \<Rightarrow> step \<Rightarrow> (mcp_error + step_execution) \<times> mcp_state" where
  "executeStep st sessionId stp =
     (let (sid, st1) = uuidv4 st
      in case sessions st1 sessionId of
           None \<Rightarrow> (Inl InvalidOrInactiveSession, st1)
         | Some session \<Rightarrow>
             (case findAgentInstance session (agent stp) of
                None \<Rightarrow> (Inl (AgentNotInSession (agent stp)), st1)
              | Some agentInstance \<Rightarrow>
                  (let (r, st2) = executeAgentAction st1 sessionId agentInstance (action stp) (stepTools stp)
                   in (Inr \<lparr>stepId = sid, se_action = action stp, se_agentId = agent stp,
                            se_tools = stepTools stp, se_status = ''completed'', se_result = r\<rparr>,
                       st2))))"

text \<open>The test of the first loop of \<open>executePlan\<close>: is some active instance of the template.\<close>

definition hasActiveInstance :: "session \<Rightarrow> string \<Rightarrow> bool" where
  "hasActiveInstance session agentId =
     list_ex (\<lambda>instanceId.
                case map_of (agentContexts (sessionContext session)) instanceId of
                  None \<Rightarrow> False
                | Some a \<Rightarrow> ai_agentId a = agentId)
             (activeAgents session)"

text \<open>The first loop: spawn every required template that has no instance yet.\<close>

fun spawnRequired :: "mcp_state \<Rightarrow> uuid \<Rightarrow> string list \<Rightarrow> (mcp_error + unit) \<times> mcp_state" where
  "spawnRequired st sessionId [] = (Inr (), st)"
| "spawnRequired st sessionId (agentId # rest) =
     (case sessions st sessionId of
        None \<Rightarrow> (Inl InvalidOrInactiveSession, st)
      | Some session \<Rightarrow>
          if hasActiveInstance session agentId then spawnRequired st sessionId rest
          else (case spawnAgent st sessionId agentId Map.empty of
                  (Inl e, st1) \<Rightarrow> (Inl e, st1)
                | (Inr iid, st1) \<Rightarrow> spawnRequired st1 sessionId rest))"

text \<open>The second loop: a step record is pushed only after its step returned.\<close>

fun runSteps ::
  "mcp_state \<Rightarrow> uuid \<Rightarrow> execution \<Rightarrow> step list \<Rightarrow> (mcp_error + unit) \<times> execution \<times> mcp_state" where
  "runSteps st sessionId ex [] = (Inr (), ex, st)"
| "runSteps st sessionId ex (stp # rest) =
     (case executeStep st sessionId stp of
        (Inl e, st1) \<Rightarrow> (Inl e, ex, st1)
      | (Inr se, st1) \<Rightarrow>
          runSteps st1 sessionId
            (ex\<lparr>ex_steps := ex_steps ex @ [se], ex_results := ex_results ex @ [se_result se]\<rparr>)
            rest)"

fun showNat :: "nat \<Rightarrow> string" where
  "showNat n =
     (if n < 10 then [char_of (48 + n)] else showNat (n div 10) @ [char_of (48 + n mod 10)])"

definition synthesizeResponse :: "action_result list \<Rightarrow> mcp_message \<Rightarrow> string" where
  "synthesizeResponse results originalMessage =
     foldl (\<lambda>resp (index, result).
              if ar_data result \<noteq> []
              then resp @ showNat (index + 1) @ ''. '' @ ar_data result @ [CHR 0x0A]
              else resp)
           (''Based on my analysis:'' @ [CHR 0x0A, CHR 0x0A]) (enumerate 0 results)
       @ [CHR 0x0A]
       @ ''This response was generated using multiple AI agents working together through the Model Context Protocol.''"

text \<open>
  \<open>executePlan\<close> returns its result or rethrows the error it caught. The caller receives
  only the error; the local \<open>execution\<close> record as the \<open>catch\<close> block leaves it is returned
  beside the error here, so that it can be spoken about.
\<close>

definition executePlan ::
  "mcp_state \<Rightarrow> plan \<Rightarrow> uuid \<Rightarrow> mcp_message \<Rightarrow> (mcp_error \<times> execution + plan_result) \<times> mcp_state" where
  "executePlan st pl sessionId originalMessage =
     (let execution0 = \<lparr>ex_planId = planId pl, ex_sessionId = sessionId, ex_steps = [],
                        ex_results = [], ex_status = ''executing'', ex_error = None\<rparr>
      in case spawnRequired st sessionId (requiredAgents pl) of
           (Inl e, st1) \<Rightarrow>
             (Inl (e, execution0\<lparr>ex_status := ''failed'', ex_error := Some e\<rparr>), st1)
         | (Inr _, st1) \<Rightarrow>
             (case runSteps st1 sessionId execution0 (steps pl) of
                (Inl e, ex, st2) \<Rightarrow> (Inl (e, ex\<lparr>ex_status := ''failed'', ex_error := Some e\<rparr>), st2)
              | (Inr _, ex, st2) \<Rightarrow>
                  (let ex1 = ex\<lparr>ex_status := ''completed''\<rparr>;
                       finalResponse = synthesizeResponse (ex_results ex1) originalMessage
                   in (Inr \<lparr>response = finalResponse, pr_execution = ex1,
                            pr_metadata = \<lparr>md_planId = planId pl,
                                           stepsExecuted = length (ex_steps ex1),
                                           agentsUsed = requiredAgents pl,
                                           toolsUsed = requiredTools pl\<rparr>\<rparr>,
                       st2))))"

text \<open>\<open>x || d\<close> on an optional string: the default for a missing key and for the empty string.\<close>

definition orDefaultStr :: "string option \<Rightarrow> string \<Rightarrow> string" where
  "orDefaultStr x d = (case x of None \<Rightarrow> d | Some v \<Rightarrow> if v = [] then d else v)"

definition processMessage ::
  "mcp_state \<Rightarrow> uuid \<Rightarrow> string \<Rightarrow> message_options \<Rightarrow> (mcp_error + plan_result) \<times> mcp_state" where
  "processMessage st sessionId message options =
     (case sessions st sessionId of
        None \<Rightarrow> (Inl InvalidOrInactiveSession, st)
      | Some session \<Rightarrow>
          if \<not> isActive session then (Inl InvalidOrInactiveSession, st)
          else (let (mid, st1) = uuidv4 st;
                    mcpMessage = \<lparr>messageId = mid, msg_sessionId = sessionId, msg_content = message,
                                  msg_sender = orDefaultStr (opt_sender options) ''user'',
                                  msg_type = orDefaultStr (opt_type options) ''query'',
                                  msg_metadata = (case opt_metadata options of None \<Rightarrow> [] | Some m \<Rightarrow> m)\<rparr>;
                    st2 = st1\<lparr>sessions := (sessions st1)(sessionId \<mapsto>
                               session\<lparr>messageHistory := messageHistory session @ [mcpMessage]\<rparr>)\<rparr>;
                    intent = analyzeIntent message (sessionContext session);
                    (routingPlan, st3) = createRoutingPlan st2 intent sessionId
                in case executePlan st3 routingPlan sessionId mcpMessage of
                     (Inl (e, ex), st4) \<Rightarrow> (Inl e, st4)
                   | (Inr result, st4) \<Rightarrow>
                       (Inr result,
                        st4\<lparr>emitted := emitted st4 @ [MessageProcessed sessionId mid]\<rparr>)))"

definition closeSession :: "mcp_state \<Rightarrow> uuid \<Rightarrow> mcp_state" where
  "closeSession st sessionId =
     (case sessions st sessionId of
        None \<Rightarrow> st
      | Some session \<Rightarrow>
          st\<lparr>sessions := (sessions st)(sessionId \<mapsto> session\<lparr>isActive := False\<rparr>),
             contexts := contexts st - {sessionId},
             emitted := emitted st @ [SessionClosed sessionId]\<rparr>)"

subsection \<open>Sequences of calls\<close>

datatype api_call =
    CreateSession string session_config_arg
  | SpawnAgent uuid string "(string \<times> config_value) list"
  | ProcessMessage uuid string message_options
  | CloseSession uuid
  | RegisterAgent string agent_definition
  | RegisterTool string

fun api_step :: "mcp_state \<Rightarrow> api_call \<Rightarrow> mcp_state" where
  "api_step st (CreateSession userId sessionConfig) = snd (createSession st userId sessionConfig)"
| "api_step st (SpawnAgent sessionId agentId agentConfig) =
     snd (spawnAgent st sessionId agentId (map_of agentConfig))"
| "api_step st (ProcessMessage sessionId message options) =
     snd (processMessage st sessionId message options)"
| "api_step st (CloseSession sessionId) = closeSession st sessionId"
| "api_step st (RegisterAgent agentId agentDefinition) = registerAgent st agentId agentDefinition"
| "api_step st (RegisterTool toolId) = registerTool st toolId"

definition run :: "mcp_state \<Rightarrow> api_call list \<Rightarrow> mcp_state" where
  "run st calls = foldl api_step st calls"

text \<open>A sequence of messages sent to one session, each with its options.\<close>

definition sendAll :: "mcp_state \<Rightarrow> uuid \<Rightarrow> (string \<times> message_options) list \<Rightarrow> mcp_state" where
  "sendAll st sessionId msgs =
     foldl (\<lambda>s (message, options). snd (processMessage s sessionId message options)) st msgs"

definition historyLength :: "mcp_state \<Rightarrow> uuid \<Rightarrow> nat" where
  "historyLength st sessionId =
     (case sessions st sessionId of None \<Rightarrow> 0 | Some session \<Rightarrow> length (messageHistory session))"

subsection \<open>The intent table as the specification words it\<close>

definition intentTable :: "(string \<times> string list \<times> rat) list" where
  "intentTable =
     [(''information_retrieval'', [''search'', ''find'', ''look up''], 8 / 10),
      (''analysis'', [''analyze'', ''examine'', ''study''], 8 / 10),
      (''content_creation'', [''create'', ''generate'', ''make''], 8 / 10),
      (''problem_solving'', [''solve'', ''calculate'', ''compute''], 8 / 10),
      (''educational'', [''explain'', ''teach'', ''how''], 7 / 10)]"

definition classify :: "string \<Rightarrow> string \<times> rat" where
  "classify message =
     (case find (\<lambda>(t, kws, c). list_ex (includesStr (toLowerCase message)) kws) intentTable of
        None \<Rightarrow> (''unknown'', 5 / 10)
      | Some (t, kws, c) \<Rightarrow> (t, c))"

subsection \<open>Relations between states and example states\<close>

text \<open>
  \<open>sessionsKept st st'\<close>: going from \<open>st\<close> to \<open>st'\<close> no session appeared or disappeared,
  and every session kept its activity flag, its message history and its configuration;
  the counter did not go back.
\<close>

definition sessionsKept :: "mcp_state \<Rightarrow> mcp_state \<Rightarrow> bool" where
  "sessionsKept st st' =
     (uuidCounter st \<le> uuidCounter st'
      \<and> (\<forall>k. case sessions st k of
                None \<Rightarrow> sessions st' k = None
              | Some s \<Rightarrow> (\<exists>s'. sessions st' k = Some s' \<and> isActive s' = isActive s
                              \<and> messageHistory s' = messageHistory s \<and> config s' = config s)))"

text \<open>The same without the message history.\<close>

definition activityKept :: "mcp_state \<Rightarrow> mcp_state \<Rightarrow> bool" where
  "activityKept st st' =
     (uuidCounter st \<le> uuidCounter st'
      \<and> (\<forall>k. case sessions st k of
                None \<Rightarrow> sessions st' k = None
              | Some s \<Rightarrow> (\<exists>s'. sessions st' k = Some s' \<and> isActive s' = isActive s)))"

text \<open>Every session id in use was handed out by the counter.\<close>

definition idsFresh :: "mcp_state \<Rightarrow> bool" where
  "idsFresh st = (\<forall>k. sessions st k \<noteq> None \<longrightarrow> k < uuidCounter st)"

definition closedAt :: "mcp_state \<Rightarrow> uuid \<Rightarrow> bool" where
  "closedAt st sessionId =
     (case sessions st sessionId of None \<Rightarrow> False | Some s \<Rightarrow> \<not> isActive s)"

text \<open>The template ids of the instances in a session's context, in insertion order.\<close>

definition instanceTemplates :: "session \<Rightarrow> string list" where
  "instanceTemplates s = map (\<lambda>p. ai_agentId (snd p)) (agentContexts (sessionContext s))"

definition agentCount :: "mcp_state \<Rightarrow> uuid \<Rightarrow> nat" where
  "agentCount st sessionId =
     (case sessions st sessionId of None \<Rightarrow> 0 | Some session \<Rightarrow> length (activeAgents session))"

definition noConfig :: session_config_arg where
  "noConfig = \<lparr>arg_maxAgents = None, arg_maxTools = None, arg_timeout = None\<rparr>"

definition noOptions :: message_options where
  "noOptions = \<lparr>opt_sender = None, opt_type = None, opt_metadata = None\<rparr>"

text \<open>One session (its id is 0) with default limits, then with one and with five agents.\<close>

definition oneSession :: mcp_state where
  "oneSession = snd (createSession initializeProtocol ''user1'' noConfig)"

definition spawnResearch :: "mcp_state \<Rightarrow> mcp_state" where
  "spawnResearch st = snd (spawnAgent st 0 ''research_agent'' Map.empty)"

definition oneAgent :: mcp_state where
  "oneAgent = spawnResearch oneSession"

definition fiveAgents :: mcp_state where
  "fiveAgents = spawnResearch (spawnResearch (spawnResearch (spawnResearch oneAgent)))"

text \<open>A plan of three steps whose second step names a template with no instance.\<close>

definition threeSteps :: plan where
  "threeSteps =
     \<lparr>planId = 100, planIntent = analyzeIntent ''three steps'' \<lparr>ctx_sessionId = 0, agentContexts = []\<rparr>,
      steps = [\<lparr>action = ''search_information'', agent = ''research_agent'', stepTools = [''web_search'']\<rparr>,
               \<lparr>action = ''synthesize_results'', agent = ''analysis_agent'', stepTools = [''content_generation'']\<rparr>,
               \<lparr>action = ''gather_information'', agent = ''research_agent'', stepTools = [''web_search'']\<rparr>],
      estimatedDuration = 15000,
      requiredAgents = [''research_agent''],
      requiredTools = [''web_search'']\<rparr>"

definition helloMessage :: mcp_message where
  "helloMessage = \<lparr>messageId = 50, msg_sessionId = 0, msg_content = ''hello'', msg_sender = ''user'',
                    msg_type = ''query'', msg_metadata = []\<rparr>"

section \<open>Properties of the model router\<close>

subsection \<open>Rounding and the order of doubles\<close>

lemma floor_rat_numeral_div: "\<lfloor>(numeral a :: rat) / numeral b\<rfloor> = numeral a div numeral b"
  using floor_divide_of_int_eq [of "numeral a" "numeral b", where ?'a = rat] by simp

lemma floor_rat_one_div: "\<lfloor>(1 :: rat) / numeral b\<rfloor> = 1 div numeral b"
  using floor_divide_of_int_eq [of 1 "numeral b", where ?'a = rat] by simp

lemma ceiling_rat_numeral_div: "\<lceil>(numeral a :: rat) / numeral b\<rceil> = - (- numeral a div numeral b)"
  using floor_divide_of_int_eq [of "- numeral a" "numeral b", where ?'a = rat]
  by (simp add: ceiling_def)

lemmas evalDouble =
  roundToDouble_def floorLog2_def roundHalfEven_def pow2_def Let_def compute_bitlen dsub_def
  floor_rat_numeral_div floor_rat_one_div ceiling_rat_numeral_div

lemma pow2_powi: "pow2 k = 2 powi k"
  by (simp add: pow2_def power_int_def power_one_over)

lemma pow2_pos: "0 < pow2 k"
  by (simp add: pow2_powi)

lemma pow2_add: "pow2 (i + j) = pow2 i * pow2 j"
  by (simp add: pow2_powi power_int_add)

lemma pow2_mono: "i \<le> j \<Longrightarrow> pow2 i \<le> pow2 j"
  by (simp add: pow2_powi power_int_increasing)

lemma pow2_nat: "0 \<le> k \<Longrightarrow> pow2 k = 2 ^ nat k"
  by (simp add: pow2_def)

lemma pow2_Ints: "0 \<le> k \<Longrightarrow> pow2 k \<in> \<int>"
  by (simp add: pow2_nat)

lemma floorLog2_lower:
  assumes "0 < z"
  shows "pow2 (floorLog2 z) \<le> z"
proof (cases "1 \<le> z")
  case True
  then have pos: "0 < \<lfloor>z\<rfloor>" by linarith
  from bitlen_bounds [OF pos] have b: "2 ^ nat (bitlen \<lfloor>z\<rfloor> - 1) \<le> \<lfloor>z\<rfloor>" by simp
  have ge: "0 \<le> bitlen \<lfloor>z\<rfloor> - 1"
    using pos bitlen_eq_zero_iff [of "\<lfloor>z\<rfloor>"] bitlen_nonneg [of "\<lfloor>z\<rfloor>"] by linarith
  have "pow2 (bitlen \<lfloor>z\<rfloor> - 1) = of_int (2 ^ nat (bitlen \<lfloor>z\<rfloor> - 1))"
    using ge by (simp add: pow2_nat)
  also have "\<dots> \<le> of_int \<lfloor>z\<rfloor>" using b by (simp only: of_int_le_iff)
  also have "\<dots> \<le> z" by simp
  finally show ?thesis using True by (simp add: floorLog2_def)
next
  case False
  define n where "n = \<lceil>1 / z\<rceil> - 1"
  from False assms have "1 < 1 / z" by (simp add: field_simps)
  then have "1 < \<lceil>1 / z\<rceil>" by linarith
  then have pos: "0 < n" by (simp add: n_def)
  from bitlen_bounds [OF pos] have "n < 2 ^ nat (bitlen n)" by simp
  then have "\<lceil>1 / z\<rceil> \<le> 2 ^ nat (bitlen n)" by (simp add: n_def)
  then have a: "of_int \<lceil>1 / z\<rceil> \<le> (of_int (2 ^ nat (bitlen n)) :: rat)" by (simp only: of_int_le_iff)
  have b: "(of_int (2 ^ nat (bitlen n)) :: rat) = 2 ^ nat (bitlen n)" by simp
  have c: "1 / z \<le> of_int \<lceil>1 / z\<rceil>" by (rule le_of_int_ceiling)
  from a b c have "1 / z \<le> 2 ^ nat (bitlen n)" by linarith
  then have "1 / 2 ^ nat (bitlen n) \<le> z" using assms by (simp add: field_simps)
  moreover have "pow2 (- bitlen n) = 1 / 2 ^ nat (bitlen n)"
    using bitlen_nonneg [of n] pos bitlen_eq_zero_iff [of n] by (simp add: pow2_def)
  ultimately show ?thesis using False by (simp add: floorLog2_def n_def)
qed

lemma roundHalfEven_ge_floor: "\<lfloor>q\<rfloor> \<le> roundHalfEven q"
  by (simp add: roundHalfEven_def Let_def)

lemma onGrid_round: 
  assumes "- 1074 \<le> e"
  shows "onGrid (sgn z * of_int m * pow2 e)"
proof -
  have "pow2 e = pow2 (e + 1074) * pow2 (- 1074)"
    using pow2_add [of "e + 1074" "- 1074"] by simp
  then have "sgn z * of_int m * pow2 e / pow2 (- 1074) = sgn z * of_int m * pow2 (e + 1074)"
    using pow2_pos [of "- 1074"] by simp
  moreover have "sgn z \<in> \<int>" by (cases "z = 0"; cases "0 < z") (simp_all add: sgn_if)
  moreover have "pow2 (e + 1074) \<in> \<int>" using assms by (simp add: pow2_Ints)
  ultimately show ?thesis by (simp add: onGrid_def)
qed

lemma representable_roundToDouble: "representable (roundToDouble z)"
proof -
  define e where "e = max (floorLog2 \<bar>z\<bar> - 52) (- 1074)"
  define m where "m = roundHalfEven (\<bar>z\<bar> / pow2 e)"
  have e: "- 1074 \<le> e" by (simp add: e_def)
  have r: "roundToDouble z =
             (if z = 0 then Fin 0
              else if 1024 < bitlen m + e then (if 0 < z then PInf else NInf)
              else Fin (sgn z * of_int m * pow2 e))"
    by (simp add: roundToDouble_def Let_def e_def m_def)
  have "onGrid 0" by (simp add: onGrid_def)
  with onGrid_round [OF e, of z m] show ?thesis
    unfolding r by (simp add: representable_def)
qed

lemma onGrid_abs_ge:
  assumes "onGrid v" and "v \<noteq> 0"
  shows "pow2 (- 1074) \<le> \<bar>v\<bar>"
proof -
  from assms have "v / pow2 (- 1074) \<in> \<int>" "v / pow2 (- 1074) \<noteq> 0"
    using pow2_pos [of "- 1074"] by (simp_all add: onGrid_def)
  then have "1 \<le> \<bar>v / pow2 (- 1074)\<bar>" by (rule Ints_nonzero_abs_ge1)
  then show ?thesis using pow2_pos [of "- 1074"] by (simp add: field_simps abs_mult)
qed

text \<open>Rounding a non-zero value of the grid keeps its sign.\<close>

lemma roundToDouble_sign:
  assumes "onGrid z" and "z \<noteq> 0"
  shows "positive (roundToDouble z) \<longleftrightarrow> 0 < z"
proof -
  define e where "e = max (floorLog2 \<bar>z\<bar> - 52) (- 1074)"
  define m where "m = roundHalfEven (\<bar>z\<bar> / pow2 e)"
  have az: "0 < \<bar>z\<bar>" using assms(2) by simp
  have "pow2 e \<le> \<bar>z\<bar>"
  proof (cases "floorLog2 \<bar>z\<bar> - 52 \<le> - 1074")
    case True
    then have "e = - 1074" by (simp add: e_def)
    with onGrid_abs_ge [OF assms] show ?thesis by simp
  next
    case False
    then have "e = floorLog2 \<bar>z\<bar> - 52" by (simp add: e_def)
    then have "pow2 e \<le> pow2 (floorLog2 \<bar>z\<bar>)" by (simp add: pow2_mono)
    with floorLog2_lower [OF az] show ?thesis by simp
  qed
  then have "1 \<le> \<bar>z\<bar> / pow2 e" using pow2_pos [of e] by (simp add: field_simps)
  then have "1 \<le> \<lfloor>\<bar>z\<bar> / pow2 e\<rfloor>" by (simp add: le_floor_iff)
  with roundHalfEven_ge_floor [of "\<bar>z\<bar> / pow2 e"] have m: "1 \<le> m" unfolding m_def by linarith
  then have mp: "0 < (of_int m :: rat) * pow2 e" using pow2_pos [of e] by simp
  have r: "roundToDouble z =
             (if 1024 < bitlen m + e then (if 0 < z then PInf else NInf)
              else Fin (sgn z * of_int m * pow2 e))"
    using assms(2) by (simp add: roundToDouble_def Let_def e_def m_def)
  show ?thesis
  proof (cases "0 < z")
    case True
    with mp show ?thesis by (simp add: r positive_def)
  next
    case False
    with assms(2) have neg: "z < 0" by simp
    then have "sgn z * of_int m * pow2 e = - (of_int m * pow2 e)" by simp
    with mp have "\<not> 0 < sgn z * of_int m * pow2 e" by linarith
    with neg show ?thesis unfolding r positive_def by (simp del: mult_minus_left)
  qed
qed

lemma onGrid_diff: "onGrid x \<Longrightarrow> onGrid y \<Longrightarrow> onGrid (y - x)"
  by (simp add: onGrid_def diff_divide_distrib)

lemma onGrid_0: "onGrid 0"
  by (simp add: onGrid_def)

text \<open>The sign of the comparator is the comparison of the scores.\<close>

lemma dsub_positive_iff:
  assumes "representable a" and "representable b" and "a \<noteq> NaN" and "b \<noteq> NaN"
  shows "positive (dsub b a) \<longleftrightarrow> dless a b"
proof (cases a)
  case (Fin x)
  show ?thesis
  proof (cases b)
    case (Fin y)
    from assms(1,2) \<open>a = Fin x\<close> Fin have g: "onGrid (y - x)"
      by (simp add: representable_def onGrid_diff)
    show ?thesis
    proof (cases "y - x = 0")
      case True
      then show ?thesis using \<open>a = Fin x\<close> Fin by (simp add: dsub_def roundToDouble_def positive_def)
    next
      case False
      from roundToDouble_sign [OF g False] show ?thesis
        using \<open>a = Fin x\<close> Fin by (simp add: dsub_def)
    qed
  qed (use assms Fin in \<open>simp_all add: dsub_def positive_def\<close>)
next
  case PInf
  then show ?thesis using assms by (cases b) (simp_all add: dsub_def positive_def)
next
  case NInf
  then show ?thesis using assms by (cases b) (simp_all add: dsub_def positive_def)
next
  case NaN
  with assms show ?thesis by simp
qed

lemma dless_rank: "a \<noteq> NaN \<Longrightarrow> b \<noteq> NaN \<Longrightarrow> dless a b \<longleftrightarrow> rank a < rank b"
  by (cases a; cases b) (simp_all add: rank_def)

lemma dle_rank: "a \<noteq> NaN \<Longrightarrow> b \<noteq> NaN \<Longrightarrow> dle a b \<longleftrightarrow> rank a \<le> rank b"
  by (cases a; cases b) (auto simp: rank_def dle_def)

lemma representable_dsub: "representable (dsub a b)"
  by (cases a; cases b) (simp_all add: dsub_def representable_roundToDouble, simp_all add: representable_def)


lemma sortByScore_Nil_iff: "sortByScore xs = [] \<longleftrightarrow> xs = []"
proof -
  have "insertSorted x ys \<noteq> []" for x :: "'a \<times> double" and ys
    by (cases ys) simp_all
  then show ?thesis by (cases xs) (simp_all add: sortByScore_def)
qed

lemma hd_insertSorted:
  "hd (insertSorted x ys) = (if ys \<noteq> [] \<and> positive (compareFn x (hd ys)) then hd ys else x)"
  by (cases ys) simp_all

text \<open>
  The head of the sorted list, when the comparator agrees with an order of the scores: the
  first entry of the greatest score.
\<close>

lemma hd_sortByScore:
  assumes "\<And>x y. x \<in> set xs \<Longrightarrow> y \<in> set xs
             \<Longrightarrow> positive (compareFn x y) \<longleftrightarrow> rank (snd x) < rank (snd y)"
    and "xs \<noteq> []"
  shows "\<exists>i<length xs. hd (sortByScore xs) = xs ! i
           \<and> (\<forall>j<length xs. rank (snd (xs ! j)) \<le> rank (snd (xs ! i)))
           \<and> (\<forall>j<i. rank (snd (xs ! j)) < rank (snd (xs ! i)))"
  using assms
proof (induction xs)
  case Nil
  then show ?case by simp
next
  case (Cons x xs)
  have step: "sortByScore (x # xs) = insertSorted x (sortByScore xs)"
    by (simp add: sortByScore_def)
  show ?case
  proof (cases "xs = []")
    case True
    then show ?thesis by (simp add: sortByScore_def)
  next
    case False
    have sub: "\<And>a b. a \<in> set xs \<Longrightarrow> b \<in> set xs
             \<Longrightarrow> positive (compareFn a b) \<longleftrightarrow> rank (snd a) < rank (snd b)"
      using Cons.prems(1) by simp
    from Cons.IH [OF sub False] obtain i where i: "i < length xs"
      "hd (sortByScore xs) = xs ! i"
      "\<forall>j<length xs. rank (snd (xs ! j)) \<le> rank (snd (xs ! i))"
      "\<forall>j<i. rank (snd (xs ! j)) < rank (snd (xs ! i))" by blast
    have ne: "sortByScore xs \<noteq> []" using False by (simp add: sortByScore_Nil_iff)
    have mem: "xs ! i \<in> set (x # xs)" using i(1) by simp
    have cmp: "positive (compareFn x (xs ! i)) \<longleftrightarrow> rank (snd x) < rank (snd (xs ! i))"
      using Cons.prems(1) [of x "xs ! i"] mem by simp
    show ?thesis
    proof (cases "rank (snd x) < rank (snd (xs ! i))")
      case True
      have h: "hd (sortByScore (x # xs)) = (x # xs) ! Suc i"
        using ne i(2) cmp True by (simp add: step hd_insertSorted)
      have a: "\<forall>j<length (x # xs). rank (snd ((x # xs) ! j)) \<le> rank (snd ((x # xs) ! Suc i))"
      proof (intro allI impI)
        fix j assume "j < length (x # xs)"
        then show "rank (snd ((x # xs) ! j)) \<le> rank (snd ((x # xs) ! Suc i))"
          using True i(3) by (cases j) (auto intro: less_imp_le)
      qed
      have b: "\<forall>j<Suc i. rank (snd ((x # xs) ! j)) < rank (snd ((x # xs) ! Suc i))"
      proof (intro allI impI)
        fix j assume "j < Suc i"
        then show "rank (snd ((x # xs) ! j)) < rank (snd ((x # xs) ! Suc i))"
          using True i(4) by (cases j) auto
      qed
      from h a b i(1) show ?thesis by (intro exI [of _ "Suc i"]) simp
    next
      case False
      have h: "hd (sortByScore (x # xs)) = (x # xs) ! 0"
        using ne i(2) cmp False by (simp add: step hd_insertSorted)
      have a: "\<forall>j<length (x # xs). rank (snd ((x # xs) ! j)) \<le> rank (snd ((x # xs) ! 0))"
      proof (intro allI impI)
        fix j assume "j < length (x # xs)"
        then show "rank (snd ((x # xs) ! j)) \<le> rank (snd ((x # xs) ! 0))"
          using False i(3) by (cases j) (auto intro: order_trans)
      qed
      from h a show ?thesis by (intro exI [of _ 0]) simp
    qed
  qed
qed

lemma specializationHit_matches: "specializationHit t spec = specializationMatches t spec"
  by (auto simp: specializationHit_def specializationMatches_def specializationTable_def)

lemma roundToDouble_50: "roundToDouble 50 = Fin 50"
  by (simp add: evalDouble)

lemma calculateModelScore_spec:
  "calculateModelScore lb model crit userProfile =
     specScore (case lb (name model) of None \<Rightarrow> 0 | Some l \<Rightarrow> l)
       (map_option preferredLLM userProfile) (ctype crit) (contentLength crit) model"
  by (cases userProfile)
     (simp_all add: calculateModelScore_def specScore_def baseScore_def specializationHit_matches
        roundToDouble_50 Let_def)

lemma representable_calculateModelScore: "representable (calculateModelScore lb model crit userProfile)"
  by (simp add: calculateModelScore_def Let_def representable_dsub)

lemma selectOptimalModel_scoreOf:
  "selectOptimalModel r requestType content userProfile context =
     (case sortByScore
             (map (\<lambda>model. (model, scoreOf r requestType content userProfile context model))
                  (map snd (llmModels r))) of
        [] \<Rightarrow> None | p # _ \<Rightarrow> Some (fst p))"
  by (simp add: selectOptimalModel_def scoreOf_def Let_def)

lemma selectOptimalModel_None_iff:
  "selectOptimalModel r requestType content userProfile context = None \<longleftrightarrow> llmModels r = []"
proof (cases "llmModels r = []")
  case True
  then show ?thesis by (simp add: selectOptimalModel_scoreOf sortByScore_def)
next
  case False
  define ps where "ps = sortByScore
             (map (\<lambda>model. (model, scoreOf r requestType content userProfile context model))
                  (map snd (llmModels r)))"
  have "ps \<noteq> []" using False unfolding ps_def by (simp add: sortByScore_Nil_iff)
  then obtain p qs where "ps = p # qs" by (cases ps) auto
  then have "selectOptimalModel r requestType content userProfile context = Some (fst p)"
    unfolding ps_def by (simp only: selectOptimalModel_scoreOf list.case)
  with False show ?thesis by simp
qed

text \<open>Selection returns the first model of the highest score, when no score is NaN.\<close>

lemma selectOptimalModel_first_best:
  assumes "llmModels r \<noteq> []"
    and "\<forall>p \<in> set (llmModels r). scoreOf r requestType content userProfile context (snd p) \<noteq> NaN"
  shows "\<exists>i<length (llmModels r).
           selectOptimalModel r requestType content userProfile context = Some (snd (llmModels r ! i))
         \<and> (\<forall>j<length (llmModels r).
               dle (scoreOf r requestType content userProfile context (snd (llmModels r ! j)))
                   (scoreOf r requestType content userProfile context (snd (llmModels r ! i))))
         \<and> (\<forall>j<i. dless (scoreOf r requestType content userProfile context (snd (llmModels r ! j)))
                         (scoreOf r requestType content userProfile context (snd (llmModels r ! i))))"
proof -
  define sc where "sc = scoreOf r requestType content userProfile context"
  define ps where "ps = map (\<lambda>model. (model, sc model)) (map snd (llmModels r))"
  have ne: "ps \<noteq> []" using assms(1) by (simp add: ps_def)
  have len: "length ps = length (llmModels r)" by (simp add: ps_def)
  have nth: "\<And>j. j < length (llmModels r) \<Longrightarrow> ps ! j = (snd (llmModels r ! j), sc (snd (llmModels r ! j)))"
    by (simp add: ps_def)
  have nan: "\<And>x. x \<in> set ps \<Longrightarrow> snd x \<noteq> NaN"
    using assms(2) by (auto simp: ps_def sc_def)
  have rep: "\<And>x. x \<in> set ps \<Longrightarrow> representable (snd x)"
    by (auto simp: ps_def sc_def scoreOf_def representable_calculateModelScore)
  have cmp: "\<And>x y. x \<in> set ps \<Longrightarrow> y \<in> set ps
               \<Longrightarrow> positive (compareFn x y) \<longleftrightarrow> rank (snd x) < rank (snd y)"
    using dsub_positive_iff [OF rep rep nan nan] dless_rank [OF nan nan]
    by (simp add: compareFn_def)
  from hd_sortByScore [OF cmp ne] obtain i where i: "i < length ps"
    "hd (sortByScore ps) = ps ! i"
    "\<forall>j<length ps. rank (snd (ps ! j)) \<le> rank (snd (ps ! i))"
    "\<forall>j<i. rank (snd (ps ! j)) < rank (snd (ps ! i))" by blast
  have sne: "sortByScore ps \<noteq> []" using ne by (simp add: sortByScore_Nil_iff)
  have sel: "selectOptimalModel r requestType content userProfile context
               = Some (fst (hd (sortByScore ps)))"
    using sne by (simp add: selectOptimalModel_scoreOf ps_def sc_def split: list.split)
  have il: "i < length (llmModels r)" using i(1) len by simp
  have nn: "\<And>j. j < length (llmModels r) \<Longrightarrow> sc (snd (llmModels r ! j)) \<noteq> NaN"
    using assms(2) by (simp add: sc_def)
  have s: "selectOptimalModel r requestType content userProfile context = Some (snd (llmModels r ! i))"
    using sel i(2) il nth by simp
  have a: "\<forall>j<length (llmModels r). dle (sc (snd (llmModels r ! j))) (sc (snd (llmModels r ! i)))"
  proof (intro allI impI)
    fix j assume j: "j < length (llmModels r)"
    with i(3) len have "rank (snd (ps ! j)) \<le> rank (snd (ps ! i))" by simp
    then have "rank (sc (snd (llmModels r ! j))) \<le> rank (sc (snd (llmModels r ! i)))"
      using nth [OF j] nth [OF il] by simp
    then show "dle (sc (snd (llmModels r ! j))) (sc (snd (llmModels r ! i)))"
      using dle_rank [OF nn [OF j] nn [OF il]] by simp
  qed
  have b: "\<forall>j<i. dless (sc (snd (llmModels r ! j))) (sc (snd (llmModels r ! i)))"
  proof (intro allI impI)
    fix j assume ji: "j < i"
    then have j: "j < length (llmModels r)" using il by simp
    from i(4) ji have "rank (snd (ps ! j)) < rank (snd (ps ! i))" by simp
    then have "rank (sc (snd (llmModels r ! j))) < rank (sc (snd (llmModels r ! i)))"
      using nth [OF j] nth [OF il] by simp
    then show "dless (sc (snd (llmModels r ! j))) (sc (snd (llmModels r ! i)))"
      using dless_rank [OF nn [OF j] nn [OF il]] by simp
  qed
  from s a b il show ?thesis unfolding sc_def by blast
qed

lemma scoreOf_length_only:
  "length c1 = length c2 \<Longrightarrow>
   scoreOf r requestType c1 userProfile context model = scoreOf r requestType c2 userProfile context model"
  by (simp add: scoreOf_def calculateModelScore_def analyzeRequestCriteria_def Let_def)

lemma selectOptimalModel_length_only:
  assumes "length c1 = length c2"
  shows "selectOptimalModel r requestType c1 userProfile context = selectOptimalModel r requestType c2 userProfile context"
proof -
  have "scoreOf r requestType c1 userProfile context = scoreOf r requestType c2 userProfile context"
    using scoreOf_length_only [OF assms] by (intro ext)
  then show ?thesis by (simp only: selectOptimalModel_scoreOf)
qed

lemma roundingRouter_scores:
  "scoreOf roundingRouter ''general'' ''hello'' None normalContext steadyModel
     = Fin (4876553971512115 / 35184372088832)"
  "scoreOf roundingRouter ''general'' ''hello'' None normalContext slowerModel
     = Fin (1219138492878029 / 8796093022208)"
  by (simp_all add: scoreOf_def calculateModelScore_def analyzeRequestCriteria_def
      specializationHit_def roundingRouter_def steadyModel_def slowerModel_def evalDouble)

lemma exampleRouter_scores:
  "scoreOf exampleRouter ''chat'' ''hello'' None normalContext technicalModel = Fin 80"
  "scoreOf exampleRouter ''chat'' ''hello'' None normalContext chatModelA = Fin 230"
  "scoreOf exampleRouter ''chat'' ''hello'' None normalContext chatModelB = Fin 230"
  by (simp_all add: scoreOf_def calculateModelScore_def analyzeRequestCriteria_def
      specializationHit_def exampleRouter_def technicalModel_def chatModelA_def chatModelB_def
      freshPerformance_def evalDouble)

lemma smallRouter_score:
  "scoreOf smallRouter ''chat'' ''hello'' None normalContext technicalModel = Fin 80"
  by (simp add: scoreOf_def calculateModelScore_def analyzeRequestCriteria_def
      specializationHit_def smallRouter_def technicalModel_def freshPerformance_def evalDouble)

subsection \<open>The running means, step by step\<close>

lemma updateModelPerformance_found:
  assumes "db modelName = Some model"
  shows "updateModelPerformance db modelName m =
           db(modelName \<mapsto> model\<lparr>performance :=
             \<lparr>averageLatency = incrementalMean (averageLatency (performance model))
                                 (totalRequests (performance model) + 1) (latency m),
              successRate = incrementalMean (successRate (performance model))
                              (totalRequests (performance model) + 1) (if success m then 100 else 0),
              userSatisfaction =
                (case userRating m of
                   None \<Rightarrow> userSatisfaction (performance model)
                 | Some rating \<Rightarrow>
                     if rating = 0 then userSatisfaction (performance model)
                     else incrementalMean (userSatisfaction (performance model))
                            (totalRequests (performance model) + 1) rating),
              totalRequests = totalRequests (performance model) + 1,
              errorCount = errorCount (performance model) + (if success m then 0 else 1)\<rparr>\<rparr>)"
  using assms
  by (cases "performance model")
     (simp add: updateModelPerformance_def incrementalMean_def Let_def split: option.split)

lemma incrementalMean_times:
  "incrementalMean a (n + 1) s * of_nat (n + 1) = a * of_nat n + s"
  by (simp add: incrementalMean_def)

lemma recordOutcomes_snoc:
  "recordOutcomes db modelName (ms @ [m]) = updateModelPerformance (recordOutcomes db modelName ms) modelName m"
  by (simp add: recordOutcomes_def)

lemma recordOutcomes_invariant:
  assumes "db modelName = Some model" and "totalRequests (performance model) = 0"
  shows "\<exists>model'. recordOutcomes db modelName ms modelName = Some model'
           \<and> totalRequests (performance model') = length ms
           \<and> errorCount (performance model')
               = errorCount (performance model) + length (filter (\<lambda>m. \<not> success m) ms)
           \<and> (ms \<noteq> [] \<longrightarrow>
                averageLatency (performance model') * of_nat (length ms) = sum_list (map latency ms)
              \<and> successRate (performance model') * of_nat (length ms)
                  = 100 * of_nat (length (filter success ms)))"
proof (induction ms rule: rev_induct)
  case Nil
  then show ?case using assms by (simp add: recordOutcomes_def)
next
  case (snoc m ms)
  then obtain mo where mo: "recordOutcomes db modelName ms modelName = Some mo"
    "totalRequests (performance mo) = length ms"
    "errorCount (performance mo) = errorCount (performance model) + length (filter (\<lambda>m. \<not> success m) ms)"
    "ms \<noteq> [] \<longrightarrow> averageLatency (performance mo) * of_nat (length ms) = sum_list (map latency ms)
              \<and> successRate (performance mo) * of_nat (length ms)
                  = 100 * of_nat (length (filter success ms))"
    by blast
  have lat: "incrementalMean (averageLatency (performance mo)) (length ms + 1) (latency m)
               * of_nat (length (ms @ [m])) = sum_list (map latency (ms @ [m]))"
    using mo(4) incrementalMean_times [of "averageLatency (performance mo)" "length ms" "latency m"]
    by (cases "ms = []") simp_all
  have suc: "incrementalMean (successRate (performance mo)) (length ms + 1) (if success m then 100 else 0)
               * of_nat (length (ms @ [m])) = 100 * of_nat (length (filter success (ms @ [m])))"
    using mo(4) incrementalMean_times [of "successRate (performance mo)" "length ms"
        "if success m then 100 else 0"]
    by (cases "ms = []") (simp_all add: algebra_simps)
  show ?case
    unfolding recordOutcomes_snoc
      updateModelPerformance_found [of "recordOutcomes db modelName ms" modelName mo m, OF mo(1)]
    using mo(2,3) lat suc by simp
qed

subsection \<open>Scoring and selection\<close>

text \<open>
  Claim C1. The score of a model is the specification's sum, computed in double arithmetic
  in the specification's order: 50 when the model's specialization matches the request type
  in the mapping table, plus \<open>100 - averageLatency / 10\<close>, plus \<open>successRate * 0.3\<close>, plus
  \<open>userSatisfaction * 10\<close>, plus 20 when the stored preferred model type is the model's
  type, minus twice the model's load counter, minus 100 when the content is longer than the
  model's maximal context length. Selection returns nothing for an empty registry and
  otherwise the model of highest score, the first in registry order among those of equal
  score. No score may be NaN there (one is NaN only after intermediate results of opposite
  infinite sign): with NaN the order of the sort is left to the implementation.
\<close>

theorem selectOptimalModel_score_and_first_best:
  "scoreOf r requestType content userProfile context model
     = specScore (currentLoad r model) (map_option preferredLLM userProfile) requestType
         (length content) model
   \<and> (llmModels r = [] \<longrightarrow> selectOptimalModel r requestType content userProfile context = None)
   \<and> (llmModels r \<noteq> []
        \<and> (\<forall>p \<in> set (llmModels r). scoreOf r requestType content userProfile context (snd p) \<noteq> NaN)
        \<longrightarrow>
        (\<exists>i<length (llmModels r).
           selectOptimalModel r requestType content userProfile context = Some (snd (llmModels r ! i))
         \<and> (\<forall>j<length (llmModels r).
               dle (scoreOf r requestType content userProfile context (snd (llmModels r ! j)))
                   (scoreOf r requestType content userProfile context (snd (llmModels r ! i))))
         \<and> (\<forall>j<i. dless (scoreOf r requestType content userProfile context (snd (llmModels r ! j)))
                         (scoreOf r requestType content userProfile context (snd (llmModels r ! i))))))"
proof (intro conjI impI)
  show "scoreOf r requestType content userProfile context model
     = specScore (currentLoad r model) (map_option preferredLLM userProfile) requestType
         (length content) model"
    by (simp add: scoreOf_def calculateModelScore_spec currentLoad_def analyzeRequestCriteria_def)
next
  assume "llmModels r = []"
  then show "selectOptimalModel r requestType content userProfile context = None"
    by (simp add: selectOptimalModel_None_iff)
next
  assume a: "llmModels r \<noteq> []
        \<and> (\<forall>p \<in> set (llmModels r). scoreOf r requestType content userProfile context (snd p) \<noteq> NaN)"
  then have ne: "llmModels r \<noteq> []"
    and nan: "\<forall>p \<in> set (llmModels r). scoreOf r requestType content userProfile context (snd p) \<noteq> NaN"
    by blast+
  show "\<exists>i<length (llmModels r).
           selectOptimalModel r requestType content userProfile context = Some (snd (llmModels r ! i))
         \<and> (\<forall>j<length (llmModels r).
               dle (scoreOf r requestType content userProfile context (snd (llmModels r ! j)))
                   (scoreOf r requestType content userProfile context (snd (llmModels r ! i))))
         \<and> (\<forall>j<i. dless (scoreOf r requestType content userProfile context (snd (llmModels r ! j)))
                         (scoreOf r requestType content userProfile context (snd (llmModels r ! i))))"
    by (rule selectOptimalModel_first_best [OF ne nan])
qed

theorem selectOptimalModel_score_and_first_best_witness:
  "selectOptimalModel exampleRouter ''chat'' ''hello'' None normalContext = Some chatModelA
   \<and> scoreOf exampleRouter ''chat'' ''hello'' None normalContext chatModelA
       = scoreOf exampleRouter ''chat'' ''hello'' None normalContext chatModelB
   \<and> selectOptimalModel roundingRouter ''general'' ''hello'' None normalContext = Some slowerModel
   \<and> dless (scoreOf roundingRouter ''general'' ''hello'' None normalContext steadyModel)
            (scoreOf roundingRouter ''general'' ''hello'' None normalContext slowerModel)"
proof -
  have ms: "llmModels exampleRouter = [(''gamma'', technicalModel), (''alpha'', chatModelA), (''beta'', chatModelB)]"
    by (simp add: exampleRouter_def)
  have h: "llmModels exampleRouter \<noteq> []
        \<and> (\<forall>p \<in> set (llmModels exampleRouter).
              scoreOf exampleRouter ''chat'' ''hello'' None normalContext (snd p) \<noteq> NaN)"
    by (simp add: ms exampleRouter_scores)
  have len: "length (llmModels exampleRouter) = 3" by (simp add: ms)
  from selectOptimalModel_score_and_first_best
         [of exampleRouter "''chat''" "''hello''" None normalContext chatModelA] h
  have "\<exists>i<length (llmModels exampleRouter).
           selectOptimalModel exampleRouter ''chat'' ''hello'' None normalContext
             = Some (snd (llmModels exampleRouter ! i))
         \<and> (\<forall>j<length (llmModels exampleRouter).
               dle (scoreOf exampleRouter ''chat'' ''hello'' None normalContext (snd (llmModels exampleRouter ! j)))
                   (scoreOf exampleRouter ''chat'' ''hello'' None normalContext (snd (llmModels exampleRouter ! i))))
         \<and> (\<forall>j<i. dless (scoreOf exampleRouter ''chat'' ''hello'' None normalContext (snd (llmModels exampleRouter ! j)))
                         (scoreOf exampleRouter ''chat'' ''hello'' None normalContext (snd (llmModels exampleRouter ! i))))"
    by blast
  then obtain i where i: "i < 3"
    "selectOptimalModel exampleRouter ''chat'' ''hello'' None normalContext
       = Some (snd (llmModels exampleRouter ! i))"
    "\<forall>j<3. dle (scoreOf exampleRouter ''chat'' ''hello'' None normalContext (snd (llmModels exampleRouter ! j)))
               (scoreOf exampleRouter ''chat'' ''hello'' None normalContext (snd (llmModels exampleRouter ! i)))"
    "\<forall>j<i. dless (scoreOf exampleRouter ''chat'' ''hello'' None normalContext (snd (llmModels exampleRouter ! j)))
               (scoreOf exampleRouter ''chat'' ''hello'' None normalContext (snd (llmModels exampleRouter ! i)))"
    unfolding len by blast
  from i(1) have "i = 0 \<or> i = 1 \<or> i = 2" by arith
  moreover have "i \<noteq> 0"
  proof
    assume "i = 0"
    with i(3) [rule_format, of 1] show False by (simp add: ms exampleRouter_scores dle_def)
  qed
  moreover have "i \<noteq> 2"
  proof
    assume "i = 2"
    with i(4) [rule_format, of 1] show False by (simp add: ms exampleRouter_scores)
  qed
  ultimately have "i = 1" by blast
  with i(2) have first: "selectOptimalModel exampleRouter ''chat'' ''hello'' None normalContext = Some chatModelA"
    by (simp add: ms)
  have ms2: "llmModels roundingRouter = [(''steady'', steadyModel), (''slower'', slowerModel)]"
    by (simp add: roundingRouter_def)
  have h2: "llmModels roundingRouter \<noteq> []
        \<and> (\<forall>p \<in> set (llmModels roundingRouter).
              scoreOf roundingRouter ''general'' ''hello'' None normalContext (snd p) \<noteq> NaN)"
    by (simp add: ms2 roundingRouter_scores)
  have len2: "length (llmModels roundingRouter) = 2" by (simp add: ms2)
  from selectOptimalModel_score_and_first_best
         [of roundingRouter "''general''" "''hello''" None normalContext steadyModel] h2
  have "\<exists>i<length (llmModels roundingRouter).
           selectOptimalModel roundingRouter ''general'' ''hello'' None normalContext
             = Some (snd (llmModels roundingRouter ! i))
         \<and> (\<forall>j<length (llmModels roundingRouter).
               dle (scoreOf roundingRouter ''general'' ''hello'' None normalContext (snd (llmModels roundingRouter ! j)))
                   (scoreOf roundingRouter ''general'' ''hello'' None normalContext (snd (llmModels roundingRouter ! i))))
         \<and> (\<forall>j<i. dless (scoreOf roundingRouter ''general'' ''hello'' None normalContext (snd (llmModels roundingRouter ! j)))
                         (scoreOf roundingRouter ''general'' ''hello'' None normalContext (snd (llmModels roundingRouter ! i))))"
    by blast
  then obtain k where k: "k < 2"
    "selectOptimalModel roundingRouter ''general'' ''hello'' None normalContext
       = Some (snd (llmModels roundingRouter ! k))"
    "\<forall>j<2. dle (scoreOf roundingRouter ''general'' ''hello'' None normalContext (snd (llmModels roundingRouter ! j)))
               (scoreOf roundingRouter ''general'' ''hello'' None normalContext (snd (llmModels roundingRouter ! k)))"
    unfolding len2 by blast
  from k(1) have "k = 0 \<or> k = 1" by arith
  moreover have "k \<noteq> 0"
  proof
    assume "k = 0"
    with k(3) [rule_format, of 1] show False by (simp add: ms2 roundingRouter_scores dle_def)
  qed
  ultimately have "k = 1" by blast
  with k(2) have second: "selectOptimalModel roundingRouter ''general'' ''hello'' None normalContext = Some slowerModel"
    by (simp add: ms2)
  from first second show ?thesis by (simp add: exampleRouter_scores roundingRouter_scores)
qed

subsection \<open>Content longer than every context window\<close>

text \<open>
  Claim C3 says that selection finds no model when the content is longer than the maximal
  context length of every registered model. It does find one: the registry holding only
  \<open>technicalModel\<close> (context length 3) still answers a five-character request, and
  \<open>routeRequest\<close> does not fail.
\<close>

theorem oversize_content_counterexample:
  "map snd (llmModels smallRouter) = [technicalModel]
   \<and> of_nat (length ''hello'') > maxContextLength technicalModel
   \<and> selectOptimalModel smallRouter ''chat'' ''hello'' None normalContext = Some technicalModel
   \<and> fst (routeRequest smallRouter Map.empty ''chat'' ''hello'' ''u1'' normalContext) \<noteq> Inl NoSuitableModel"
proof -
  have sel: "selectOptimalModel smallRouter ''chat'' ''hello'' None normalContext = Some technicalModel"
    by (simp add: selectOptimalModel_scoreOf smallRouter_def sortByScore_def)
  show ?thesis
    by (simp add: sel routeRequest_def) (simp add: smallRouter_def technicalModel_def)
qed

text \<open>
  Claim C3 as amended. When the content is longer than the maximal context length of every
  registered model, every model's score is its score without the context term less 100,
  and selection still returns the model of highest score, the first in registry order among
  those of equal score (no score being NaN): the empty registry is the only case in which
  selection returns nothing and \<open>routeRequest\<close> fails.
\<close>

theorem oversize_content_penalised:
  assumes "\<forall>m \<in> set (map snd (llmModels r)). of_nat (length content) > maxContextLength m"
  shows "(selectOptimalModel r requestType content userProfile context = None \<longleftrightarrow> llmModels r = [])
       \<and> (fst (routeRequest r profiles requestType content uid context) = Inl NoSuitableModel
            \<longleftrightarrow> llmModels r = [])
       \<and> (\<forall>m \<in> set (map snd (llmModels r)).
            scoreOf r requestType content userProfile context m
              = dsub (baseScore (currentLoad r m) (map_option preferredLLM userProfile) requestType m)
                     (Fin 100))
       \<and> (llmModels r \<noteq> []
            \<and> (\<forall>p \<in> set (llmModels r). scoreOf r requestType content userProfile context (snd p) \<noteq> NaN)
            \<longrightarrow>
            (\<exists>i<length (llmModels r).
               selectOptimalModel r requestType content userProfile context = Some (snd (llmModels r ! i))
             \<and> (\<forall>j<length (llmModels r).
                   dle (scoreOf r requestType content userProfile context (snd (llmModels r ! j)))
                       (scoreOf r requestType content userProfile context (snd (llmModels r ! i))))
             \<and> (\<forall>j<i. dless (scoreOf r requestType content userProfile context (snd (llmModels r ! j)))
                             (scoreOf r requestType content userProfile context (snd (llmModels r ! i))))))"
proof (intro conjI ballI impI)
  show "selectOptimalModel r requestType content userProfile context = None \<longleftrightarrow> llmModels r = []"
    by (rule selectOptimalModel_None_iff)
next
  show "fst (routeRequest r profiles requestType content uid context) = Inl NoSuitableModel
            \<longleftrightarrow> llmModels r = []"
    using selectOptimalModel_None_iff [of r requestType content "profiles uid" "context"]
    by (auto simp: routeRequest_def Let_def split: option.splits)
next
  fix m assume "m \<in> set (map snd (llmModels r))"
  with assms have "of_nat (length content) > maxContextLength m" by blast
  then show "scoreOf r requestType content userProfile context m
              = dsub (baseScore (currentLoad r m) (map_option preferredLLM userProfile) requestType m)
                     (Fin 100)"
    by (simp add: scoreOf_def calculateModelScore_spec currentLoad_def analyzeRequestCriteria_def
        specScore_def)
next
  assume a: "llmModels r \<noteq> []
            \<and> (\<forall>p \<in> set (llmModels r). scoreOf r requestType content userProfile context (snd p) \<noteq> NaN)"
  then have ne: "llmModels r \<noteq> []"
    and nan: "\<forall>p \<in> set (llmModels r). scoreOf r requestType content userProfile context (snd p) \<noteq> NaN"
    by blast+
  show "\<exists>i<length (llmModels r).
               selectOptimalModel r requestType content userProfile context = Some (snd (llmModels r ! i))
             \<and> (\<forall>j<length (llmModels r).
                   dle (scoreOf r requestType content userProfile context (snd (llmModels r ! j)))
                       (scoreOf r requestType content userProfile context (snd (llmModels r ! i))))
             \<and> (\<forall>j<i. dless (scoreOf r requestType content userProfile context (snd (llmModels r ! j)))
                             (scoreOf r requestType content userProfile context (snd (llmModels r ! i))))"
    by (rule selectOptimalModel_first_best [OF ne nan])
qed

lemma tinyRouter_scores:
  "scoreOf tinyRouter ''chat'' ''hello'' None normalContext technicalModel = Fin 80"
  "scoreOf tinyRouter ''chat'' ''hello'' None normalContext tinyChatModel = Fin 130"
  by (simp_all add: scoreOf_def calculateModelScore_def analyzeRequestCriteria_def
      specializationHit_def tinyRouter_def technicalModel_def tinyChatModel_def
      freshPerformance_def evalDouble)

theorem oversize_content_penalised_witness:
  "map snd (llmModels tinyRouter) = [technicalModel, tinyChatModel]
   \<and> of_nat (length ''hello'') > maxContextLength technicalModel
   \<and> of_nat (length ''hello'') > maxContextLength tinyChatModel
   \<and> scoreOf tinyRouter ''chat'' ''hello'' None normalContext technicalModel = Fin 80
   \<and> scoreOf tinyRouter ''chat'' ''hello'' None normalContext tinyChatModel = Fin 130
   \<and> selectOptimalModel tinyRouter ''chat'' ''hello'' None normalContext = Some tinyChatModel"
proof -
  have ms: "llmModels tinyRouter = [(''gamma'', technicalModel), (''delta'', tinyChatModel)]"
    by (simp add: tinyRouter_def)
  have big: "of_nat (length ''hello'') > maxContextLength technicalModel"
    "of_nat (length ''hello'') > maxContextLength tinyChatModel"
    by (simp_all add: technicalModel_def tinyChatModel_def)
  have h: "\<forall>m \<in> set (map snd (llmModels tinyRouter)). of_nat (length ''hello'') > maxContextLength m"
    using big by (simp add: ms)
  have h2: "llmModels tinyRouter \<noteq> []
            \<and> (\<forall>p \<in> set (llmModels tinyRouter).
                  scoreOf tinyRouter ''chat'' ''hello'' None normalContext (snd p) \<noteq> NaN)"
    by (simp add: ms tinyRouter_scores)
  have len: "length (llmModels tinyRouter) = 2" by (simp add: ms)
  from oversize_content_penalised [OF h, of "''chat''" None normalContext Map.empty "''u1''"] h2
  have "\<exists>i<length (llmModels tinyRouter).
               selectOptimalModel tinyRouter ''chat'' ''hello'' None normalContext
                 = Some (snd (llmModels tinyRouter ! i))
             \<and> (\<forall>j<length (llmModels tinyRouter).
                   dle (scoreOf tinyRouter ''chat'' ''hello'' None normalContext (snd (llmModels tinyRouter ! j)))
                       (scoreOf tinyRouter ''chat'' ''hello'' None normalContext (snd (llmModels tinyRouter ! i))))
             \<and> (\<forall>j<i. dless (scoreOf tinyRouter ''chat'' ''hello'' None normalContext (snd (llmModels tinyRouter ! j)))
                             (scoreOf tinyRouter ''chat'' ''hello'' None normalContext (snd (llmModels tinyRouter ! i))))"
    by blast
  then obtain k where k: "k < 2"
    "selectOptimalModel tinyRouter ''chat'' ''hello'' None normalContext
       = Some (snd (llmModels tinyRouter ! k))"
    "\<forall>j<2. dle (scoreOf tinyRouter ''chat'' ''hello'' None normalContext (snd (llmModels tinyRouter ! j)))
               (scoreOf tinyRouter ''chat'' ''hello'' None normalContext (snd (llmModels tinyRouter ! k)))"
    unfolding len by blast
  from k(1) have "k = 0 \<or> k = 1" by arith
  moreover have "k \<noteq> 0"
  proof
    assume "k = 0"
    with k(3) [rule_format, of 1] show False by (simp add: ms tinyRouter_scores dle_def)
  qed
  ultimately have "k = 1" by blast
  with k(2) have "selectOptimalModel tinyRouter ''chat'' ''hello'' None normalContext = Some tinyChatModel"
    by (simp add: ms)
  with big show ?thesis by (simp add: ms tinyRouter_scores)
qed

subsection \<open>Selection sees the content only through its length\<close>

text \<open>
  Claim C10. For a fixed request type, profile, registry and load counters, two contents of
  the same length give every model the same score and select the same model: the
  complexity, domain and keyword flags derived from the content do not reach the score.
\<close>

theorem selection_depends_on_length_only:
  assumes "length c1 = length c2"
  shows "(\<forall>model. calculateModelScore (loadBalancer r) model (analyzeRequestCriteria requestType c1 context) userProfile
                  = calculateModelScore (loadBalancer r) model (analyzeRequestCriteria requestType c2 context) userProfile)
       \<and> selectOptimalModel r requestType c1 userProfile context
           = selectOptimalModel r requestType c2 userProfile context"
  using scoreOf_length_only [OF assms] selectOptimalModel_length_only [OF assms]
  by (simp add: scoreOf_def)

theorem selection_depends_on_length_only_witness:
  "length ''why compare'' = length ''hello there''
   \<and> analyzeRequestCriteria ''chat'' ''why compare'' normalContext
       \<noteq> analyzeRequestCriteria ''chat'' ''hello there'' normalContext
   \<and> selectOptimalModel exampleRouter ''chat'' ''why compare'' None normalContext
       = selectOptimalModel exampleRouter ''chat'' ''hello there'' None normalContext"
proof -
  have len: "length ''why compare'' = length ''hello there''" by simp
  have a: "c_requiresReasoning (analyzeRequestCriteria ''chat'' ''why compare'' normalContext)"
    by code_simp
  have b: "\<not> c_requiresReasoning (analyzeRequestCriteria ''chat'' ''hello there'' normalContext)"
    by code_simp
  from a b have "analyzeRequestCriteria ''chat'' ''why compare'' normalContext
       \<noteq> analyzeRequestCriteria ''chat'' ''hello there'' normalContext" by metis
  with selection_depends_on_length_only [OF len, of exampleRouter "''chat''" normalContext None] len
  show ?thesis by blast
qed

subsection \<open>Running means of the performance statistics\<close>

text \<open>
  Claim C2. Starting from a fresh statistics record, after N outcome reports for a stored
  model \<open>totalRequests\<close> is N and \<open>averageLatency\<close> is the arithmetic mean of the N
  latencies (and \<open>successRate\<close> the mean of the samples 100 and 0, \<open>errorCount\<close> the
  number of failures). Each single report moves the means by
  \<open>(oldMean * (n - 1) + sample) / n\<close> with \<open>n\<close> the request count after the increment;
  a failed report adds 1 to \<open>errorCount\<close> and enters \<open>successRate\<close> as the sample 0.
\<close>

theorem recordOutcomes_running_means:
  assumes "db modelName = Some model" and "performance model = freshPerformance"
  shows "(\<exists>model'. recordOutcomes db modelName ms modelName = Some model'
            \<and> totalRequests (performance model') = length ms
            \<and> errorCount (performance model') = length (filter (\<lambda>m. \<not> success m) ms)
            \<and> (ms \<noteq> [] \<longrightarrow>
                 averageLatency (performance model') = sum_list (map latency ms) / of_nat (length ms)
               \<and> successRate (performance model')
                   = sum_list (map (\<lambda>m. if success m then 100 else 0) ms) / of_nat (length ms)))
       \<and> (\<forall>d mo m. d modelName = Some mo \<longrightarrow>
            (\<exists>mo'. updateModelPerformance d modelName m modelName = Some mo'
               \<and> totalRequests (performance mo') = totalRequests (performance mo) + 1
               \<and> averageLatency (performance mo')
                   = incrementalMean (averageLatency (performance mo))
                       (totalRequests (performance mo')) (latency m)
               \<and> successRate (performance mo')
                   = incrementalMean (successRate (performance mo))
                       (totalRequests (performance mo')) (if success m then 100 else 0)
               \<and> errorCount (performance mo')
                   = errorCount (performance mo) + (if success m then 0 else 1)))"
proof (intro conjI allI impI)
  have tr: "totalRequests (performance model) = 0" and ec: "errorCount (performance model) = 0"
    using assms(2) by (simp_all add: freshPerformance_def)
  from recordOutcomes_invariant [of db modelName model ms, OF assms(1) tr] obtain model' where m':
    "recordOutcomes db modelName ms modelName = Some model'"
    "totalRequests (performance model') = length ms"
    "errorCount (performance model')
               = errorCount (performance model) + length (filter (\<lambda>m. \<not> success m) ms)"
    "ms \<noteq> [] \<longrightarrow>
                averageLatency (performance model') * of_nat (length ms) = sum_list (map latency ms)
              \<and> successRate (performance model') * of_nat (length ms)
                  = 100 * of_nat (length (filter success ms))"
    by blast
  have cnt: "sum_list (map (\<lambda>m. if success m then 100 else 0) ms)
               = (100 :: rat) * of_nat (length (filter success ms))"
    by (induction ms) simp_all
  have "ms \<noteq> [] \<longrightarrow>
          averageLatency (performance model') = sum_list (map latency ms) / of_nat (length ms)
        \<and> successRate (performance model')
            = sum_list (map (\<lambda>m. if success m then 100 else 0) ms) / of_nat (length ms)"
    using m'(4) unfolding cnt by (auto simp: field_simps)
  with m'(1,2,3) ec
  show "\<exists>model'. recordOutcomes db modelName ms modelName = Some model'
            \<and> totalRequests (performance model') = length ms
            \<and> errorCount (performance model') = length (filter (\<lambda>m. \<not> success m) ms)
            \<and> (ms \<noteq> [] \<longrightarrow>
                 averageLatency (performance model') = sum_list (map latency ms) / of_nat (length ms)
               \<and> successRate (performance model')
                   = sum_list (map (\<lambda>m. if success m then 100 else 0) ms) / of_nat (length ms))"
    by simp
next
  fix d :: "string \<rightharpoonup> llm_model" and mo m assume "d modelName = Some mo"
  then show "\<exists>mo'. updateModelPerformance d modelName m modelName = Some mo'
               \<and> totalRequests (performance mo') = totalRequests (performance mo) + 1
               \<and> averageLatency (performance mo')
                   = incrementalMean (averageLatency (performance mo))
                       (totalRequests (performance mo')) (latency m)
               \<and> successRate (performance mo')
                   = incrementalMean (successRate (performance mo))
                       (totalRequests (performance mo')) (if success m then 100 else 0)
               \<and> errorCount (performance mo')
                   = errorCount (performance mo) + (if success m then 0 else 1)"
    by (simp add: updateModelPerformance_found)
qed

theorem recordOutcomes_running_means_witness:
  "exampleDb ''alpha'' = Some chatModelA \<and> performance chatModelA = freshPerformance
   \<and> (\<exists>model'. recordOutcomes exampleDb ''alpha'' exampleOutcomes ''alpha'' = Some model'
        \<and> totalRequests (performance model') = 3
        \<and> errorCount (performance model') = 1
        \<and> averageLatency (performance model') = 300
        \<and> successRate (performance model') = 200 / 3)"
proof -
  have a: "exampleDb ''alpha'' = Some chatModelA" by (simp add: exampleDb_def)
  have b: "performance chatModelA = freshPerformance" by (simp add: chatModelA_def)
  from recordOutcomes_running_means [of exampleDb "''alpha''" chatModelA exampleOutcomes, OF a b]
  obtain model' where m:
    "recordOutcomes exampleDb ''alpha'' exampleOutcomes ''alpha'' = Some model'"
    "totalRequests (performance model') = length exampleOutcomes"
    "errorCount (performance model') = length (filter (\<lambda>m. \<not> success m) exampleOutcomes)"
    "exampleOutcomes \<noteq> [] \<longrightarrow>
       averageLatency (performance model')
         = sum_list (map latency exampleOutcomes) / of_nat (length exampleOutcomes)
     \<and> successRate (performance model')
         = sum_list (map (\<lambda>m. if success m then 100 else 0) exampleOutcomes)
             / of_nat (length exampleOutcomes)"
    by blast
  have "totalRequests (performance model') = 3" using m(2) by (simp add: exampleOutcomes_def)
  moreover have "errorCount (performance model') = 1" using m(3) by (simp add: exampleOutcomes_def)
  moreover have "averageLatency (performance model') = 300" using m(4) by (simp add: exampleOutcomes_def)
  moreover have "successRate (performance model') = 200 / 3" using m(4) by (simp add: exampleOutcomes_def)
  ultimately show ?thesis using a b m(1) by blast
qed

section \<open>Properties of the agent protocol\<close>

subsection \<open>What the operations leave unchanged\<close>

lemma sessionsKept_refl: "sessionsKept st st"
  by (auto simp: sessionsKept_def split: option.splits)

lemma sessionsKept_trans:
  assumes "sessionsKept a b" and "sessionsKept b c"
  shows "sessionsKept a c"
  unfolding sessionsKept_def
proof (intro conjI allI)
  show "uuidCounter a \<le> uuidCounter c" using assms by (simp add: sessionsKept_def)
next
  fix k
  from assms(1) have ab: "case sessions a k of
                None \<Rightarrow> sessions b k = None
              | Some s \<Rightarrow> (\<exists>s'. sessions b k = Some s' \<and> isActive s' = isActive s
                              \<and> messageHistory s' = messageHistory s \<and> config s' = config s)"
    by (simp add: sessionsKept_def)
  from assms(2) have bc: "case sessions b k of
                None \<Rightarrow> sessions c k = None
              | Some s \<Rightarrow> (\<exists>s'. sessions c k = Some s' \<and> isActive s' = isActive s
                              \<and> messageHistory s' = messageHistory s \<and> config s' = config s)"
    by (simp add: sessionsKept_def)
  from ab bc show "case sessions a k of
                None \<Rightarrow> sessions c k = None
              | Some s \<Rightarrow> (\<exists>s'. sessions c k = Some s' \<and> isActive s' = isActive s
                              \<and> messageHistory s' = messageHistory s \<and> config s' = config s)"
    by (auto split: option.splits)
qed

lemma sessionsKept_activityKept: "sessionsKept a b \<Longrightarrow> activityKept a b"
  unfolding sessionsKept_def activityKept_def
  by (auto split: option.splits) (metis option.inject option.distinct(1))+

lemma sessionsKept_uuidv4: "sessionsKept st (snd (uuidv4 st))"
  by (auto simp: sessionsKept_def uuidv4_def split: option.splits)

lemma sessionsKept_spawnAgent: "sessionsKept st (snd (spawnAgent st sessionId agentId agentConfig))"
  by (auto simp: sessionsKept_def spawnAgent_def uuidv4_def Let_def split: option.splits)

lemma sessionsKept_executeAgentAction:
  "sessionsKept st (snd (executeAgentAction st sessionId agentInstance act ts))"
  by (auto simp: sessionsKept_def executeAgentAction_def Let_def split: option.splits)

lemma sessionsKept_executeStep: "sessionsKept st (snd (executeStep st sessionId stp))"
proof -
  have "sessionsKept (snd (uuidv4 st)) (snd (executeStep st sessionId stp))"
    using sessionsKept_executeAgentAction [of "snd (uuidv4 st)" sessionId]
    by (auto simp: executeStep_def Let_def sessionsKept_refl split: option.splits prod.splits)
       (metis snd_conv)
  with sessionsKept_uuidv4 [of st] show ?thesis by (rule sessionsKept_trans)
qed

lemma sessionsKept_runSteps: "sessionsKept st (snd (snd (runSteps st sessionId ex stps)))"
proof (induction stps arbitrary: st ex)
  case Nil
  show ?case by (simp add: sessionsKept_refl)
next
  case (Cons stp rest)
  show ?case
  proof (cases "executeStep st sessionId stp")
    case (Pair r st1)
    with sessionsKept_executeStep [of st sessionId stp] have k: "sessionsKept st st1" by simp
    show ?thesis
    proof (cases r)
      case (Inl e)
      with Pair k show ?thesis by simp
    next
      case (Inr se)
      with Pair k Cons.IH [of st1] show ?thesis
        by (auto intro: sessionsKept_trans)
    qed
  qed
qed

lemma sessionsKept_spawnRequired: "sessionsKept st (snd (spawnRequired st sessionId as))"
proof (induction as arbitrary: st)
  case Nil
  show ?case by (simp add: sessionsKept_refl)
next
  case (Cons a rest)
  show ?case
  proof (cases "sessions st sessionId")
    case None
    then show ?thesis by (simp add: sessionsKept_refl)
  next
    case (Some session)
    show ?thesis
    proof (cases "hasActiveInstance session a")
      case True
      with Some Cons.IH [of st] show ?thesis by simp
    next
      case False
      show ?thesis
      proof (cases "spawnAgent st sessionId a Map.empty")
        case (Pair r st1)
        with sessionsKept_spawnAgent [of st sessionId a Map.empty] have k: "sessionsKept st st1" by simp
        show ?thesis
        proof (cases r)
          case (Inl e)
          with Pair k Some False show ?thesis by simp
        next
          case (Inr iid)
          with Pair k Some False Cons.IH [of st1] show ?thesis
            by (auto intro: sessionsKept_trans)
        qed
      qed
    qed
  qed
qed

lemma sessionsKept_executePlan: "sessionsKept st (snd (executePlan st pl sessionId msg))"
proof (cases "spawnRequired st sessionId (requiredAgents pl)")
  case (Pair r st1)
  with sessionsKept_spawnRequired [of st sessionId "requiredAgents pl"]
  have k1: "sessionsKept st st1" by simp
  show ?thesis
  proof (cases r)
    case (Inl e)
    with Pair k1 show ?thesis by (simp add: executePlan_def)
  next
    case (Inr u)
    define ex0 where "ex0 = \<lparr>ex_planId = planId pl, ex_sessionId = sessionId, ex_steps = [],
                        ex_results = [], ex_status = ''executing'', ex_error = None\<rparr>"
    obtain r2 ex st2 where rs: "runSteps st1 sessionId ex0 (steps pl) = (r2, ex, st2)"
      by (cases "runSteps st1 sessionId ex0 (steps pl)") auto
    with sessionsKept_runSteps [of st1 sessionId ex0 "steps pl"] have "sessionsKept st1 st2" by simp
    with k1 have "sessionsKept st st2" by (rule sessionsKept_trans)
    with Pair Inr rs show ?thesis
      by (cases r2) (simp_all add: executePlan_def Let_def ex0_def)
  qed
qed

lemma sessionsKept_createRoutingPlan: "sessionsKept st (snd (createRoutingPlan st intent sessionId))"
  by (auto simp: sessionsKept_def createRoutingPlan_def uuidv4_def Let_def split: option.splits)

lemma emitted_sel: "sessions (b\<lparr>emitted := e\<rparr>) = sessions b" "uuidCounter (b\<lparr>emitted := e\<rparr>) = uuidCounter b"
  by simp_all

lemma sessionsKept_emitted: "sessionsKept a b \<Longrightarrow> sessionsKept a (b\<lparr>emitted := e\<rparr>)"
  unfolding sessionsKept_def by (simp only: emitted_sel simp_thms)

lemma processMessage_state:
  assumes "sessions st sessionId = Some s" and "isActive s"
  shows "\<exists>m st2. msg_content m = message
           \<and> sessions st2 sessionId = Some (s\<lparr>messageHistory := messageHistory s @ [m]\<rparr>)
           \<and> (\<forall>k. k \<noteq> sessionId \<longrightarrow> sessions st2 k = sessions st k)
           \<and> uuidCounter st \<le> uuidCounter st2
           \<and> sessionsKept st2 (snd (processMessage st sessionId message options))"
proof -
  define m where "m = \<lparr>messageId = uuidCounter st, msg_sessionId = sessionId, msg_content = message,
                        msg_sender = orDefaultStr (opt_sender options) ''user'',
                        msg_type = orDefaultStr (opt_type options) ''query'',
                        msg_metadata = (case opt_metadata options of None \<Rightarrow> [] | Some m \<Rightarrow> m)\<rparr>"
  define st2 where "st2 = st\<lparr>uuidCounter := Suc (uuidCounter st),
                             sessions := (sessions st)(sessionId \<mapsto>
                               s\<lparr>messageHistory := messageHistory s @ [m]\<rparr>)\<rparr>"
  define pl where "pl = createRoutingPlan st2 (analyzeIntent message (sessionContext s)) sessionId"
  define res where "res = executePlan (snd pl) (fst pl) sessionId m"
  have unf: "snd (processMessage st sessionId message options) =
               (case fst res of
                  Inl p \<Rightarrow> snd res
                | Inr result \<Rightarrow>
                    (snd res)\<lparr>emitted := emitted (snd res) @ [MessageProcessed sessionId (uuidCounter st)]\<rparr>)"
    using assms
    by (simp add: processMessage_def uuidv4_def Let_def case_prod_beta res_def pl_def st2_def m_def
             split: sum.splits)
  have "sessionsKept st2 (snd pl)" unfolding pl_def by (rule sessionsKept_createRoutingPlan)
  moreover have "sessionsKept (snd pl) (snd res)" unfolding res_def by (rule sessionsKept_executePlan)
  ultimately have k: "sessionsKept st2 (snd res)" by (rule sessionsKept_trans)
  have "sessionsKept st2 (snd (processMessage st sessionId message options))"
    unfolding unf using k sessionsKept_emitted [OF k] by (cases "fst res") simp_all
  moreover have "msg_content m = message" by (simp add: m_def)
  moreover have "sessions st2 sessionId = Some (s\<lparr>messageHistory := messageHistory s @ [m]\<rparr>)"
    by (simp add: st2_def)
  moreover have "\<forall>k. k \<noteq> sessionId \<longrightarrow> sessions st2 k = sessions st k" by (simp add: st2_def)
  moreover have "uuidCounter st \<le> uuidCounter st2" by (simp add: st2_def)
  ultimately show ?thesis by blast
qed

lemma processMessage_rejected:
  assumes "sessions st sessionId = None \<or> closedAt st sessionId"
  shows "processMessage st sessionId message options = (Inl InvalidOrInactiveSession, st)"
  using assms by (auto simp: processMessage_def closedAt_def split: option.splits)

lemma spawnAgent_rejected:
  assumes "sessions st sessionId = None \<or> closedAt st sessionId"
  shows "spawnAgent st sessionId agentId agentConfig = (Inl InvalidOrInactiveSession, st)"
  using assms by (auto simp: spawnAgent_def closedAt_def split: option.splits)

lemma processMessage_active:
  assumes "sessions st sessionId = Some s" and "isActive s"
  shows "\<exists>s' m. sessions (snd (processMessage st sessionId message options)) sessionId = Some s'
           \<and> isActive s' \<and> config s' = config s
           \<and> messageHistory s' = messageHistory s @ [m] \<and> msg_content m = message"
proof -
  from processMessage_state [OF assms, of message options] obtain m st2 where m:
    "msg_content m = message"
    "sessions st2 sessionId = Some (s\<lparr>messageHistory := messageHistory s @ [m]\<rparr>)"
    "sessionsKept st2 (snd (processMessage st sessionId message options))" by blast
  from m(3) have "case sessions st2 sessionId of
                None \<Rightarrow> sessions (snd (processMessage st sessionId message options)) sessionId = None
              | Some s \<Rightarrow> (\<exists>s'. sessions (snd (processMessage st sessionId message options)) sessionId = Some s'
                              \<and> isActive s' = isActive s
                              \<and> messageHistory s' = messageHistory s \<and> config s' = config s)"
    unfolding sessionsKept_def by blast
  with m(2) obtain s' where "sessions (snd (processMessage st sessionId message options)) sessionId = Some s'"
    "isActive s' = isActive s" "messageHistory s' = messageHistory s @ [m]" "config s' = config s"
    by auto
  with m(1) assms(2) show ?thesis by blast
qed

lemma activityKept_trans:
  assumes "activityKept a b" and "activityKept b c"
  shows "activityKept a c"
  unfolding activityKept_def
proof (intro conjI allI)
  show "uuidCounter a \<le> uuidCounter c" using assms by (simp add: activityKept_def)
next
  fix k
  from assms(1) have ab: "case sessions a k of
                None \<Rightarrow> sessions b k = None
              | Some s \<Rightarrow> (\<exists>s'. sessions b k = Some s' \<and> isActive s' = isActive s)"
    by (simp add: activityKept_def)
  from assms(2) have bc: "case sessions b k of
                None \<Rightarrow> sessions c k = None
              | Some s \<Rightarrow> (\<exists>s'. sessions c k = Some s' \<and> isActive s' = isActive s)"
    by (simp add: activityKept_def)
  from ab bc show "case sessions a k of
                None \<Rightarrow> sessions c k = None
              | Some s \<Rightarrow> (\<exists>s'. sessions c k = Some s' \<and> isActive s' = isActive s)"
    by (auto split: option.splits)
qed

lemma activityKept_refl: "activityKept st st"
  by (auto simp: activityKept_def split: option.splits)

lemma activityKept_processMessage:
  "activityKept st (snd (processMessage st sessionId message options))"
proof (cases "sessions st sessionId")
  case None
  then show ?thesis by (simp add: processMessage_rejected activityKept_refl)
next
  case (Some s)
  show ?thesis
  proof (cases "isActive s")
    case False
    with Some have "closedAt st sessionId" by (simp add: closedAt_def)
    then show ?thesis by (simp add: processMessage_rejected activityKept_refl)
  next
    case True
    from processMessage_state [OF Some True, of message options] obtain m st2 where m:
      "sessions st2 sessionId = Some (s\<lparr>messageHistory := messageHistory s @ [m]\<rparr>)"
      "\<forall>k. k \<noteq> sessionId \<longrightarrow> sessions st2 k = sessions st k"
      "uuidCounter st \<le> uuidCounter st2"
      "sessionsKept st2 (snd (processMessage st sessionId message options))" by blast
    have a: "activityKept st st2"
      unfolding activityKept_def
    proof (intro conjI allI)
      show "uuidCounter st \<le> uuidCounter st2" by (rule m(3))
    next
      fix k
      show "case sessions st k of
                None \<Rightarrow> sessions st2 k = None
              | Some s \<Rightarrow> (\<exists>s'. sessions st2 k = Some s' \<and> isActive s' = isActive s)"
        using m(1,2) Some by (cases "k = sessionId") (auto split: option.splits)
    qed
    from a sessionsKept_activityKept [OF m(4)] show ?thesis by (rule activityKept_trans)
  qed
qed

lemma sendAll_history:
  assumes "sessions st sessionId = Some s" and "isActive s"
  shows "\<exists>s' new. sessions (sendAll st sessionId msgs) sessionId = Some s' \<and> isActive s'
           \<and> config s' = config s
           \<and> messageHistory s' = messageHistory s @ new \<and> map msg_content new = map fst msgs"
  using assms
proof (induction msgs arbitrary: st s)
  case Nil
  then show ?case by (simp add: sendAll_def)
next
  case (Cons p msgs)
  obtain message options where p: "p = (message, options)" by (cases p)
  from processMessage_active [OF Cons.prems, of message options] obtain s1 m where s1:
    "sessions (snd (processMessage st sessionId message options)) sessionId = Some s1"
    "isActive s1" "config s1 = config s"
    "messageHistory s1 = messageHistory s @ [m]" "msg_content m = message" by blast
  from Cons.IH [OF s1(1,2)] obtain s' new where s':
    "sessions (sendAll (snd (processMessage st sessionId message options)) sessionId msgs) sessionId = Some s'"
    "isActive s'" "config s' = config s1"
    "messageHistory s' = messageHistory s1 @ new" "map msg_content new = map fst msgs" by blast
  have eq: "sendAll st sessionId (p # msgs)
          = sendAll (snd (processMessage st sessionId message options)) sessionId msgs"
    by (simp add: sendAll_def p)
  have h: "messageHistory s' = messageHistory s @ (m # new)" using s'(4) s1(4) by simp
  have c: "map msg_content (m # new) = map fst (p # msgs)" using s'(5) s1(5) p by simp
  have cf: "config s' = config s" using s'(3) s1(3) by simp
  show ?case unfolding eq using s'(1,2) cf h c by blast
qed

lemma oneSession_session:
  "\<exists>s. sessions oneSession 0 = Some s \<and> isActive s \<and> messageHistory s = []
       \<and> activeAgents s = [] \<and> maxAgents (config s) = 5"
  by (simp add: oneSession_def createSession_def createSessionContext_def uuidv4_def
      initializeProtocol_def registerTool_def registerAgent_def noConfig_def spread_def
      orDefault_def Let_def)

lemma activityKept_spawnAgent: "activityKept st (snd (spawnAgent st sessionId agentId agentConfig))"
  by (rule sessionsKept_activityKept) (rule sessionsKept_spawnAgent)

lemma activityKept_SomeD:
  assumes "activityKept a b" and "sessions a k = Some s"
  shows "\<exists>s'. sessions b k = Some s' \<and> isActive s' = isActive s"
proof -
  from assms(1) have "case sessions a k of
                None \<Rightarrow> sessions b k = None
              | Some s \<Rightarrow> (\<exists>s'. sessions b k = Some s' \<and> isActive s' = isActive s)"
    unfolding activityKept_def by blast
  with assms(2) show ?thesis by simp
qed

lemma activityKept_NoneD:
  assumes "activityKept a b" and "sessions a k = None"
  shows "sessions b k = None"
proof -
  from assms(1) have "case sessions a k of
                None \<Rightarrow> sessions b k = None
              | Some s \<Rightarrow> (\<exists>s'. sessions b k = Some s' \<and> isActive s' = isActive s)"
    unfolding activityKept_def by blast
  with assms(2) show ?thesis by simp
qed

lemma activityKept_idsFresh:
  assumes "activityKept st st'" and "idsFresh st"
  shows "idsFresh st'"
  unfolding idsFresh_def
proof (intro allI impI)
  fix k assume k: "sessions st' k \<noteq> None"
  have "sessions st k \<noteq> None"
  proof
    assume "sessions st k = None"
    from activityKept_NoneD [OF assms(1) this] k show False by simp
  qed
  with assms(2) have "k < uuidCounter st" by (simp add: idsFresh_def)
  moreover from assms(1) have "uuidCounter st \<le> uuidCounter st'" by (simp add: activityKept_def)
  ultimately show "k < uuidCounter st'" by simp
qed

lemma activityKept_closedAt:
  assumes "activityKept st st'" and "closedAt st k"
  shows "closedAt st' k"
proof -
  from assms(2) obtain s where s: "sessions st k = Some s" "\<not> isActive s"
    by (auto simp: closedAt_def split: option.splits)
  from activityKept_SomeD [OF assms(1) s(1)] s(2) show ?thesis
    by (auto simp: closedAt_def)
qed

lemma closeSession_idsFresh: "idsFresh st \<Longrightarrow> idsFresh (closeSession st k)"
  by (auto simp: idsFresh_def closeSession_def split: option.splits)

lemma closeSession_closedAt: "closedAt st k \<Longrightarrow> closedAt (closeSession st j) k"
  by (auto simp: closedAt_def closeSession_def split: option.splits)

lemma closeSession_closes: "sessions st k \<noteq> None \<Longrightarrow> closedAt (closeSession st k) k"
  by (auto simp: closedAt_def closeSession_def split: option.splits)

lemma createSession_idsFresh: "idsFresh st \<Longrightarrow> idsFresh (snd (createSession st userId sessionConfig))"
  by (auto simp: idsFresh_def createSession_def createSessionContext_def uuidv4_def Let_def
      split: if_splits)

lemma createSession_closedAt:
  "idsFresh st \<Longrightarrow> closedAt st k \<Longrightarrow> closedAt (snd (createSession st userId sessionConfig)) k"
  by (auto simp: idsFresh_def closedAt_def createSession_def createSessionContext_def uuidv4_def Let_def
      split: option.splits)

lemma register_sessions:
  "sessions (registerAgent st a d) = sessions st" "uuidCounter (registerAgent st a d) = uuidCounter st"
  "sessions (registerTool st t) = sessions st" "uuidCounter (registerTool st t) = uuidCounter st"
  by (simp_all add: registerAgent_def registerTool_def)

lemma api_step_invariant:
  assumes "idsFresh st" and "closedAt st k"
  shows "idsFresh (api_step st c) \<and> closedAt (api_step st c) k"
proof (cases c)
  case (CreateSession u cfg)
  with assms show ?thesis by (simp add: createSession_idsFresh createSession_closedAt)
next
  case (SpawnAgent j a cfg)
  with assms activityKept_spawnAgent [of st j a "map_of cfg"] show ?thesis
    by (simp add: activityKept_idsFresh activityKept_closedAt)
next
  case (ProcessMessage j m opts)
  with assms activityKept_processMessage [of st j m opts] show ?thesis
    by (simp add: activityKept_idsFresh activityKept_closedAt)
next
  case (CloseSession j)
  with assms show ?thesis by (simp add: closeSession_idsFresh closeSession_closedAt)
next
  case (RegisterAgent a d)
  with assms show ?thesis by (simp add: idsFresh_def closedAt_def register_sessions)
next
  case (RegisterTool t)
  with assms show ?thesis by (simp add: idsFresh_def closedAt_def register_sessions)
qed

lemma idsFresh_step: "idsFresh st \<Longrightarrow> idsFresh (api_step st c)"
proof (cases c)
  case (CreateSession u cfg)
  assume "idsFresh st"
  with CreateSession show ?thesis by (simp add: createSession_idsFresh)
next
  case (SpawnAgent j a cfg)
  assume "idsFresh st"
  with SpawnAgent activityKept_spawnAgent [of st j a "map_of cfg"] show ?thesis
    by (simp add: activityKept_idsFresh)
next
  case (ProcessMessage j m opts)
  assume "idsFresh st"
  with ProcessMessage activityKept_processMessage [of st j m opts] show ?thesis
    by (simp add: activityKept_idsFresh)
next
  case (CloseSession j)
  assume "idsFresh st"
  with CloseSession show ?thesis by (simp add: closeSession_idsFresh)
next
  case (RegisterAgent a d)
  assume "idsFresh st"
  with RegisterAgent show ?thesis by (simp add: idsFresh_def register_sessions)
next
  case (RegisterTool t)
  assume "idsFresh st"
  with RegisterTool show ?thesis by (simp add: idsFresh_def register_sessions)
qed

lemma run_snoc: "run st (calls @ [c]) = api_step (run st calls) c"
  by (simp add: run_def)

lemma idsFresh_run: "idsFresh st \<Longrightarrow> idsFresh (run st calls)"
  by (induction calls rule: rev_induct) (simp_all add: run_def idsFresh_step)

lemma idsFresh_initializeProtocol: "idsFresh initializeProtocol"
  by (simp add: idsFresh_def initializeProtocol_def registerTool_def registerAgent_def Let_def)

lemma run_invariant:
  "idsFresh st \<Longrightarrow> closedAt st k \<Longrightarrow> idsFresh (run st calls) \<and> closedAt (run st calls) k"
proof (induction calls rule: rev_induct)
  case Nil
  then show ?case by (simp add: run_def)
next
  case (snoc c calls)
  then have "idsFresh (run st calls)" and "closedAt (run st calls) k" by simp_all
  then show ?case unfolding run_snoc by (rule api_step_invariant)
qed

lemma findAgentInstance_None_iff:
  "findAgentInstance s a = None \<longleftrightarrow> a \<notin> set (instanceTemplates s)"
  by (auto simp: findAgentInstance_def instanceTemplates_def find_None_iff)

lemma pushHistory_templates:
  "map (\<lambda>p. ai_agentId (snd p)) (pushHistory iid r acs) = map (\<lambda>p. ai_agentId (snd p)) acs"
  by (induction acs) (auto simp: pushHistory_def)

lemma executeAgentAction_templates:
  assumes "sessions st sessionId = Some s"
  shows "\<exists>s'. sessions (snd (executeAgentAction st sessionId ai act ts)) sessionId = Some s'
           \<and> instanceTemplates s' = instanceTemplates s"
  using assms
  by (simp add: executeAgentAction_def Let_def instanceTemplates_def pushHistory_templates)

lemma executeStep_missing:
  assumes "sessions st sessionId = Some s" and "findAgentInstance s (agent stp) = None"
  shows "executeStep st sessionId stp = (Inl (AgentNotInSession (agent stp)), snd (uuidv4 st))"
  using assms by (simp add: executeStep_def uuidv4_def Let_def)

lemma executeStep_present:
  assumes "sessions st sessionId = Some s" and "findAgentInstance s (agent stp) \<noteq> None"
  shows "\<exists>se st' s'. executeStep st sessionId stp = (Inr se, st')
           \<and> se_action se = action stp \<and> se_status se = ''completed''
           \<and> sessions st' sessionId = Some s' \<and> instanceTemplates s' = instanceTemplates s"
proof -
  from assms(2) obtain ai where ai: "findAgentInstance s (agent stp) = Some ai" by blast
  define st1 where "st1 = snd (uuidv4 st)"
  have s1: "sessions st1 sessionId = Some s" using assms(1) by (simp add: st1_def uuidv4_def)
  define res where "res = executeAgentAction st1 sessionId ai (action stp) (stepTools stp)"
  have unf: "executeStep st sessionId stp =
               (Inr \<lparr>stepId = uuidCounter st, se_action = action stp, se_agentId = agent stp,
                     se_tools = stepTools stp, se_status = ''completed'', se_result = fst res\<rparr>,
                snd res)"
    using assms(1) ai
    by (simp add: executeStep_def uuidv4_def Let_def case_prod_beta res_def st1_def)
  from executeAgentAction_templates [OF s1, of ai "action stp" "stepTools stp"]
  obtain s' where "sessions (snd res) sessionId = Some s'" "instanceTemplates s' = instanceTemplates s"
    unfolding res_def by blast
  with unf show ?thesis by simp
qed

lemma runSteps_append:
  "runSteps st sessionId ex (pre @ post) =
     (case runSteps st sessionId ex pre of
        (Inl e, ex', st') \<Rightarrow> (Inl e, ex', st')
      | (Inr u, ex', st') \<Rightarrow> runSteps st' sessionId ex' post)"
proof (induction pre arbitrary: st ex)
  case Nil
  show ?case by simp
next
  case (Cons stp pre)
  show ?case
  proof (cases "executeStep st sessionId stp")
    case (Pair r st1)
    then show ?thesis using Cons.IH by (cases r) simp_all
  qed
qed

lemma runSteps_present:
  assumes "sessions st sessionId = Some s"
    and "\<forall>stp \<in> set pre. findAgentInstance s (agent stp) \<noteq> None"
  shows "\<exists>ex' st' s'. runSteps st sessionId ex pre = (Inr (), ex', st')
           \<and> sessions st' sessionId = Some s' \<and> instanceTemplates s' = instanceTemplates s
           \<and> map se_action (ex_steps ex') = map se_action (ex_steps ex) @ map action pre
           \<and> map se_status (ex_steps ex')
               = map se_status (ex_steps ex) @ replicate (length pre) ''completed''
           \<and> ex_status ex' = ex_status ex \<and> ex_error ex' = ex_error ex"
  using assms
proof (induction pre arbitrary: st s ex)
  case Nil
  then show ?case by simp
next
  case (Cons stp pre)
  from Cons.prems(2) have p: "findAgentInstance s (agent stp) \<noteq> None" by simp
  from executeStep_present [OF Cons.prems(1) p] obtain se st1 s1 where se:
    "executeStep st sessionId stp = (Inr se, st1)" "se_action se = action stp"
    "se_status se = ''completed''" "sessions st1 sessionId = Some s1"
    "instanceTemplates s1 = instanceTemplates s" by blast
  have all: "\<forall>stp \<in> set pre. findAgentInstance s1 (agent stp) \<noteq> None"
    using Cons.prems(2) se(5) by (simp add: findAgentInstance_None_iff)
  define ex1 where "ex1 = ex\<lparr>ex_steps := ex_steps ex @ [se], ex_results := ex_results ex @ [se_result se]\<rparr>"
  from Cons.IH [OF se(4) all, of ex1] obtain ex' st' s' where r:
    "runSteps st1 sessionId ex1 pre = (Inr (), ex', st')"
    "sessions st' sessionId = Some s'" "instanceTemplates s' = instanceTemplates s1"
    "map se_action (ex_steps ex') = map se_action (ex_steps ex1) @ map action pre"
    "map se_status (ex_steps ex')
               = map se_status (ex_steps ex1) @ replicate (length pre) ''completed''"
    "ex_status ex' = ex_status ex1" "ex_error ex' = ex_error ex1" by blast
  have "runSteps st sessionId ex (stp # pre) = (Inr (), ex', st')"
    using se(1) r(1) by (simp add: ex1_def)
  moreover have "map se_action (ex_steps ex') = map se_action (ex_steps ex) @ map action (stp # pre)"
    using r(4) se(2) by (simp add: ex1_def)
  moreover have "map se_status (ex_steps ex')
               = map se_status (ex_steps ex) @ replicate (length (stp # pre)) ''completed''"
    using r(5) se(3) by (simp add: ex1_def)
  moreover have "ex_status ex' = ex_status ex" "ex_error ex' = ex_error ex"
    using r(6,7) by (simp_all add: ex1_def)
  ultimately show ?case using r(2,3) se(5) by simp
qed

lemma runSteps_first_failure:
  assumes "sessions st sessionId = Some s"
    and "\<forall>stp \<in> set pre. findAgentInstance s (agent stp) \<noteq> None"
    and "findAgentInstance s (agent bad) = None"
  shows "\<exists>ex' st'. runSteps st sessionId ex (pre @ bad # post)
                      = (Inl (AgentNotInSession (agent bad)), ex', st')
           \<and> runSteps st sessionId ex (pre @ [bad]) = (Inl (AgentNotInSession (agent bad)), ex', st')
           \<and> map se_action (ex_steps ex') = map se_action (ex_steps ex) @ map action pre
           \<and> map se_status (ex_steps ex')
               = map se_status (ex_steps ex) @ replicate (length pre) ''completed''"
proof -
  from runSteps_present [OF assms(1,2), of ex] obtain ex' st' s' where r:
    "runSteps st sessionId ex pre = (Inr (), ex', st')"
    "sessions st' sessionId = Some s'" "instanceTemplates s' = instanceTemplates s"
    "map se_action (ex_steps ex') = map se_action (ex_steps ex) @ map action pre"
    "map se_status (ex_steps ex')
               = map se_status (ex_steps ex) @ replicate (length pre) ''completed''" by blast
  have miss: "findAgentInstance s' (agent bad) = None"
    using assms(3) r(3) by (simp add: findAgentInstance_None_iff)
  have b: "executeStep st' sessionId bad = (Inl (AgentNotInSession (agent bad)), snd (uuidv4 st'))"
    by (rule executeStep_missing [OF r(2) miss])
  have "runSteps st sessionId ex (pre @ bad # post)
          = (Inl (AgentNotInSession (agent bad)), ex', snd (uuidv4 st'))"
    by (simp add: runSteps_append r(1) b)
  moreover have "runSteps st sessionId ex (pre @ [bad])
          = (Inl (AgentNotInSession (agent bad)), ex', snd (uuidv4 st'))"
    by (simp add: runSteps_append r(1) b)
  ultimately show ?thesis using r(4,5) by blast
qed

lemma executePlan_first_failure:
  assumes "spawnRequired st sessionId (requiredAgents pl) = (Inr (), st1)"
    and "sessions st1 sessionId = Some s"
    and "steps pl = pre @ bad # post"
    and "\<forall>stp \<in> set pre. findAgentInstance s (agent stp) \<noteq> None"
    and "findAgentInstance s (agent bad) = None"
  shows "\<exists>ex st'. executePlan st pl sessionId msg = (Inl (AgentNotInSession (agent bad), ex), st')
           \<and> executePlan st (pl\<lparr>steps := pre @ [bad]\<rparr>) sessionId msg
               = (Inl (AgentNotInSession (agent bad), ex), st')
           \<and> ex_status ex = ''failed'' \<and> ex_error ex = Some (AgentNotInSession (agent bad))
           \<and> map se_action (ex_steps ex) = map action pre
           \<and> map se_status (ex_steps ex) = replicate (length pre) ''completed''"
proof -
  define ex0 where "ex0 = \<lparr>ex_planId = planId pl, ex_sessionId = sessionId, ex_steps = [],
                        ex_results = [], ex_status = ''executing'', ex_error = None\<rparr>"
  from runSteps_first_failure [OF assms(2,4,5), of ex0 post] obtain ex' st' where r:
    "runSteps st1 sessionId ex0 (pre @ bad # post) = (Inl (AgentNotInSession (agent bad)), ex', st')"
    "runSteps st1 sessionId ex0 (pre @ [bad]) = (Inl (AgentNotInSession (agent bad)), ex', st')"
    "map se_action (ex_steps ex') = map se_action (ex_steps ex0) @ map action pre"
    "map se_status (ex_steps ex')
               = map se_status (ex_steps ex0) @ replicate (length pre) ''completed''" by blast
  define ex where "ex = ex'\<lparr>ex_status := ''failed'', ex_error := Some (AgentNotInSession (agent bad))\<rparr>"
  have "executePlan st pl sessionId msg = (Inl (AgentNotInSession (agent bad), ex), st')"
    using assms(1,3) r(1) by (simp add: executePlan_def Let_def ex0_def ex_def)
  moreover have "executePlan st (pl\<lparr>steps := pre @ [bad]\<rparr>) sessionId msg
               = (Inl (AgentNotInSession (agent bad), ex), st')"
    using assms(1) r(2) by (simp add: executePlan_def Let_def ex0_def ex_def)
  moreover have "map se_action (ex_steps ex) = map action pre" using r(3) by (simp add: ex_def ex0_def)
  moreover have "map se_status (ex_steps ex) = replicate (length pre) ''completed''"
    using r(4) by (simp add: ex_def ex0_def)
  moreover have "ex_status ex = ''failed''" "ex_error ex = Some (AgentNotInSession (agent bad))"
    by (simp_all add: ex_def)
  ultimately show ?thesis by blast
qed

lemma oneAgent_session:
  "\<exists>s. sessions oneAgent 0 = Some s \<and> isActive s \<and> instanceTemplates s = [''research_agent'']
       \<and> hasActiveInstance s ''research_agent''"
  by (simp add: oneAgent_def spawnResearch_def spawnAgent_def oneSession_def createSession_def
      createSessionContext_def uuidv4_def initializeProtocol_def registerTool_def registerAgent_def
      noConfig_def spread_def orDefault_def setAdd_def instanceTemplates_def hasActiveInstance_def
      Let_def)

lemma threeSteps_setting:
  "\<exists>s. spawnRequired oneAgent 0 (requiredAgents threeSteps) = (Inr (), oneAgent)
       \<and> sessions oneAgent 0 = Some s
       \<and> steps threeSteps =
           [\<lparr>action = ''search_information'', agent = ''research_agent'', stepTools = [''web_search'']\<rparr>]
           @ \<lparr>action = ''synthesize_results'', agent = ''analysis_agent'', stepTools = [''content_generation'']\<rparr>
           # [\<lparr>action = ''gather_information'', agent = ''research_agent'', stepTools = [''web_search'']\<rparr>]
       \<and> findAgentInstance s ''research_agent'' \<noteq> None
       \<and> findAgentInstance s ''analysis_agent'' = None"
proof -
  from oneAgent_session obtain s where s: "sessions oneAgent 0 = Some s"
    "instanceTemplates s = [''research_agent'']" "hasActiveInstance s ''research_agent''" by blast
  have "spawnRequired oneAgent 0 (requiredAgents threeSteps) = (Inr (), oneAgent)"
    using s(1,3) by (simp add: threeSteps_def)
  moreover have "findAgentInstance s ''research_agent'' \<noteq> None"
    "findAgentInstance s ''analysis_agent'' = None"
    using s(2) by (simp_all add: findAgentInstance_None_iff)
  ultimately show ?thesis using s(1) by (simp add: threeSteps_def)
qed

lemma fiveAgents_session:
  "\<exists>s. sessions fiveAgents 0 = Some s \<and> isActive s \<and> length (activeAgents s) = 5
       \<and> maxAgents (config s) = 5"
  by (simp add: fiveAgents_def oneAgent_def spawnResearch_def spawnAgent_def oneSession_def
      createSession_def createSessionContext_def uuidv4_def initializeProtocol_def registerTool_def
      registerAgent_def noConfig_def spread_def orDefault_def setAdd_def Let_def)

lemma fiveAgents_agents: "agents fiveAgents ''research_agent'' \<noteq> None"
  by (simp add: fiveAgents_def oneAgent_def spawnResearch_def spawnAgent_def oneSession_def
      createSession_def createSessionContext_def uuidv4_def initializeProtocol_def registerTool_def
      registerAgent_def noConfig_def spread_def orDefault_def setAdd_def Let_def)

subsection \<open>The intent classifier\<close>

text \<open>
  Claim C7. \<open>analyzeIntent\<close> depends on the message text alone. Its type and confidence
  are those of the first row of the ordered keyword table (information_retrieval, analysis,
  content_creation, problem_solving at 0.8, educational at 0.7) one of whose keywords occurs
  in the lower-cased message, and \<open>unknown\<close> with 0.5 when no row matches. The message
  \<open>search for thermodynamics papers\<close> is classified information_retrieval with 0.8.
\<close>

theorem analyzeIntent_first_match:
  "(intentType (analyzeIntent message ctx), confidence (analyzeIntent message ctx)) = classify message
   \<and> analyzeIntent message ctx = analyzeIntent message ctx'
   \<and> intentType (analyzeIntent ''search for thermodynamics papers'' ctx) = ''information_retrieval''
   \<and> confidence (analyzeIntent ''search for thermodynamics papers'' ctx) = 8 / 10"
proof (intro conjI)
  show "(intentType (analyzeIntent message ctx), confidence (analyzeIntent message ctx)) = classify message"
    by (simp add: analyzeIntent_def classify_def intentTable_def Let_def)
  show "analyzeIntent message ctx = analyzeIntent message ctx'"
    by (simp add: analyzeIntent_def)
  have inc: "includesStr (toLowerCase ''search for thermodynamics papers'') ''search''"
    by code_simp
  show "intentType (analyzeIntent ''search for thermodynamics papers'' ctx) = ''information_retrieval''"
    using inc by (simp add: analyzeIntent_def Let_def)
  show "confidence (analyzeIntent ''search for thermodynamics papers'' ctx) = 8 / 10"
    using inc by (simp add: analyzeIntent_def Let_def)
qed

subsection \<open>Spawning at the agent limit\<close>

text \<open>
  Claim C6. In a session whose number of active agents has reached \<open>maxAgents\<close> (5 agents
  with the default limit 5), \<open>spawnAgent\<close> fails and leaves the whole state, so also the
  session's agent set, as it was; for an active session and a registered template the error
  is the one for the reached maximum.
\<close>

theorem spawnAgent_at_capacity:
  assumes "sessions st sessionId = Some session"
    and "int (length (activeAgents session)) \<ge> maxAgents (config session)"
  shows "(\<exists>e. spawnAgent st sessionId agentId agentConfig = (Inl e, st))
       \<and> (isActive session \<and> agents st agentId \<noteq> None
            \<longrightarrow> spawnAgent st sessionId agentId agentConfig = (Inl MaxAgentsReached, st))"
  using assms by (auto simp: spawnAgent_def split: option.splits)

theorem spawnAgent_at_capacity_witness:
  "agentCount fiveAgents 0 = 5
   \<and> spawnAgent fiveAgents 0 ''research_agent'' Map.empty = (Inl MaxAgentsReached, fiveAgents)
   \<and> agentCount (snd (spawnAgent fiveAgents 0 ''research_agent'' Map.empty)) 0 = 5"
proof -
  from fiveAgents_session obtain s where s: "sessions fiveAgents 0 = Some s" "isActive s"
    "length (activeAgents s) = 5" "maxAgents (config s) = 5" by blast
  have cap: "int (length (activeAgents s)) \<ge> maxAgents (config s)" using s(3,4) by simp
  from spawnAgent_at_capacity [OF s(1) cap, of "''research_agent''" Map.empty] s(2) fiveAgents_agents
  have "spawnAgent fiveAgents 0 ''research_agent'' Map.empty = (Inl MaxAgentsReached, fiveAgents)"
    by blast
  then show ?thesis using s(1,3) by (simp add: agentCount_def)
qed

subsection \<open>Closing a session twice\<close>

text \<open>
  Claim C9. \<open>closeSession\<close> has no failing branch. For an existing session, after the first
  call and again after the second the session is inactive and its id has no entry in
  \<open>contexts\<close>; the second call changes nothing but the sequence of emitted events, to which
  it adds one more \<open>sessionClosed\<close>.
\<close>

theorem closeSession_idempotent:
  assumes "sessions st sessionId = Some session"
  shows "sessions (closeSession st sessionId) sessionId = Some (session\<lparr>isActive := False\<rparr>)
       \<and> sessionId \<notin> contexts (closeSession st sessionId)
       \<and> sessions (closeSession (closeSession st sessionId) sessionId) sessionId
           = Some (session\<lparr>isActive := False\<rparr>)
       \<and> sessionId \<notin> contexts (closeSession (closeSession st sessionId) sessionId)
       \<and> closeSession (closeSession st sessionId) sessionId
           = (closeSession st sessionId)
               \<lparr>emitted := emitted (closeSession st sessionId) @ [SessionClosed sessionId]\<rparr>"
  using assms by (simp add: closeSession_def)

theorem closeSession_idempotent_witness:
  "0 \<in> contexts oneSession
   \<and> closedAt (closeSession oneSession 0) 0
   \<and> 0 \<notin> contexts (closeSession oneSession 0)
   \<and> closedAt (closeSession (closeSession oneSession 0) 0) 0
   \<and> 0 \<notin> contexts (closeSession (closeSession oneSession 0) 0)"
proof -
  from oneSession_session obtain s where s: "sessions oneSession 0 = Some s" by blast
  have c: "0 \<in> contexts oneSession"
    by (simp add: oneSession_def createSession_def createSessionContext_def uuidv4_def
        initializeProtocol_def registerTool_def registerAgent_def Let_def)
  from closeSession_idempotent [OF s] c show ?thesis
    by (simp add: closedAt_def)
qed

subsection \<open>A closed session accepts no operation\<close>

text \<open>
  Claim C8. Take any state the protocol reaches from its initial state by a sequence of
  calls, close an existing session, and let any further sequence of calls follow. Then
  \<open>spawnAgent\<close> and \<open>processMessage\<close> on the closed session's id both fail with the
  invalid-or-inactive-session error and change nothing.
\<close>

theorem closed_session_rejects:
  assumes "sessions (run initializeProtocol before) sessionId \<noteq> None"
  shows "spawnAgent (run (closeSession (run initializeProtocol before) sessionId) after)
           sessionId agentId agentConfig
         = (Inl InvalidOrInactiveSession, run (closeSession (run initializeProtocol before) sessionId) after)
       \<and> processMessage (run (closeSession (run initializeProtocol before) sessionId) after)
           sessionId message options
         = (Inl InvalidOrInactiveSession, run (closeSession (run initializeProtocol before) sessionId) after)"
proof -
  define st where "st = run initializeProtocol before"
  have f: "idsFresh st" unfolding st_def by (rule idsFresh_run) (rule idsFresh_initializeProtocol)
  have "idsFresh (closeSession st sessionId)" using f by (rule closeSession_idsFresh)
  moreover have "closedAt (closeSession st sessionId) sessionId"
    using assms unfolding st_def by (rule closeSession_closes)
  ultimately have "closedAt (run (closeSession st sessionId) after) sessionId"
    by (rule run_invariant [THEN conjunct2])
  then show ?thesis unfolding st_def
    by (simp add: spawnAgent_rejected processMessage_rejected)
qed

theorem closed_session_rejects_witness:
  "sessions (run initializeProtocol [CreateSession ''user1'' noConfig]) 0 \<noteq> None
   \<and> fst (spawnAgent
            (run (closeSession (run initializeProtocol [CreateSession ''user1'' noConfig]) 0)
               [CreateSession ''user2'' noConfig, ProcessMessage 1 ''hello'' noOptions])
            0 ''research_agent'' Map.empty) = Inl InvalidOrInactiveSession
   \<and> fst (processMessage
            (run (closeSession (run initializeProtocol [CreateSession ''user1'' noConfig]) 0)
               [CreateSession ''user2'' noConfig, ProcessMessage 1 ''hello'' noOptions])
            0 ''hello'' noOptions) = Inl InvalidOrInactiveSession"
proof -
  have r: "run initializeProtocol [CreateSession ''user1'' noConfig] = oneSession"
    by (simp add: run_def oneSession_def)
  from oneSession_session have ex: "sessions (run initializeProtocol [CreateSession ''user1'' noConfig]) 0 \<noteq> None"
    unfolding r by auto
  from closed_session_rejects [OF ex, of "[CreateSession ''user2'' noConfig, ProcessMessage 1 ''hello'' noOptions]"
      "''research_agent''" Map.empty "''hello''" noOptions] ex
  show ?thesis by simp
qed

subsection \<open>The message history\<close>

text \<open>
  Claim C5 says that the message history of a session never grows beyond a fixed cap. No
  cap exists: for every bound there is a sequence of messages after which the history of the
  session of \<open>oneSession\<close> is longer.
\<close>

theorem messageHistory_unbounded:
  "\<not> (\<exists>cap. \<forall>msgs. historyLength (sendAll oneSession 0 msgs) 0 \<le> cap)"
proof
  assume "\<exists>cap. \<forall>msgs. historyLength (sendAll oneSession 0 msgs) 0 \<le> cap"
  then obtain cap where cap: "\<forall>msgs. historyLength (sendAll oneSession 0 msgs) 0 \<le> cap" by blast
  from oneSession_session obtain s where s: "sessions oneSession 0 = Some s" "isActive s"
    "messageHistory s = []" by blast
  define msgs where "msgs = replicate (Suc cap) (''hello'', noOptions)"
  from sendAll_history [OF s(1,2), of msgs] obtain s' new where s':
    "sessions (sendAll oneSession 0 msgs) 0 = Some s'"
    "messageHistory s' = messageHistory s @ new" "map msg_content new = map fst msgs" by blast
  from s'(3) have "length (map msg_content new) = Suc cap" unfolding msgs_def by simp
  then have "length new = Suc cap" by simp
  with s'(1,2) s(3) have "historyLength (sendAll oneSession 0 msgs) 0 = Suc cap"
    by (simp add: historyLength_def)
  moreover from cap have "historyLength (sendAll oneSession 0 msgs) 0 \<le> cap" by blast
  ultimately show False by simp
qed

text \<open>
  Claim C5 as amended. The message history is append-only and unbounded: every
  \<open>processMessage\<close> call on an active session adds exactly one entry, for the message it
  was given, at the end of the history, whether or not the plan then succeeds; the entries
  already there stay, and the session stays active.
\<close>

theorem messageHistory_append_only:
  assumes "sessions st sessionId = Some s" and "isActive s"
  shows "\<exists>s' new. sessions (sendAll st sessionId msgs) sessionId = Some s' \<and> isActive s'
           \<and> messageHistory s' = messageHistory s @ new \<and> map msg_content new = map fst msgs"
  using sendAll_history [OF assms, of msgs] by blast

theorem messageHistory_append_only_witness:
  "historyLength oneSession 0 = 0
   \<and> historyLength (sendAll oneSession 0 [(''search for papers'', noOptions), (''hello'', noOptions)]) 0 = 2"
proof -
  from oneSession_session obtain s where s: "sessions oneSession 0 = Some s" "isActive s"
    "messageHistory s = []" by blast
  from messageHistory_append_only [OF s(1,2), of "[(''search for papers'', noOptions), (''hello'', noOptions)]"]
  obtain s' new where s':
    "sessions (sendAll oneSession 0 [(''search for papers'', noOptions), (''hello'', noOptions)]) 0 = Some s'"
    "messageHistory s' = messageHistory s @ new"
    "map msg_content new = map fst [(''search for papers'', noOptions), (''hello'', noOptions)]" by blast
  from s'(3) have "length (map msg_content new) = 2" by simp
  then have "length new = 2" by simp
  with s'(1,2) s show ?thesis by (simp add: historyLength_def)
qed

subsection \<open>A failing step\<close>

text \<open>
  Claim C4 says that a plan of three steps whose second step fails leaves an execution with
  two step records. It leaves one: \<open>threeSteps\<close> in a session that has only a research
  agent fails in its second step, and the execution record then holds the record of the
  first step alone.
\<close>

theorem executePlan_second_step_counterexample:
  "length (steps threeSteps) = 3
   \<and> (\<exists>ex st'. executePlan oneAgent threeSteps 0 helloMessage
                  = (Inl (AgentNotInSession ''analysis_agent'', ex), st')
        \<and> ex_status ex = ''failed'' \<and> length (ex_steps ex) = 1 \<and> length (ex_steps ex) \<noteq> 2)"
proof -
  from threeSteps_setting obtain s where s:
    "spawnRequired oneAgent 0 (requiredAgents threeSteps) = (Inr (), oneAgent)"
    "sessions oneAgent 0 = Some s"
    "steps threeSteps =
           [\<lparr>action = ''search_information'', agent = ''research_agent'', stepTools = [''web_search'']\<rparr>]
           @ \<lparr>action = ''synthesize_results'', agent = ''analysis_agent'', stepTools = [''content_generation'']\<rparr>
           # [\<lparr>action = ''gather_information'', agent = ''research_agent'', stepTools = [''web_search'']\<rparr>]"
    "findAgentInstance s ''research_agent'' \<noteq> None"
    "findAgentInstance s ''analysis_agent'' = None" by blast
  have pre: "\<forall>stp \<in> set [\<lparr>action = ''search_information'', agent = ''research_agent'', stepTools = [''web_search'']\<rparr>].
               findAgentInstance s (agent stp) \<noteq> None" using s(4) by simp
  have bad: "findAgentInstance s (agent \<lparr>action = ''synthesize_results'', agent = ''analysis_agent'',
               stepTools = [''content_generation'']\<rparr>) = None" using s(5) by simp
  from executePlan_first_failure [OF s(1,2,3) pre bad, of helloMessage]
  obtain ex st' where ex: "executePlan oneAgent threeSteps 0 helloMessage
                  = (Inl (AgentNotInSession ''analysis_agent'', ex), st')"
    "ex_status ex = ''failed''" "map se_action (ex_steps ex) = [''search_information'']"
    by auto
  from ex(3) have "length (map se_action (ex_steps ex)) = 1" by simp
  then have "length (ex_steps ex) = 1" by simp
  with ex(1,2) show ?thesis by (auto simp: threeSteps_def)
qed

text \<open>
  Claim C4 as amended. When the steps before some step all find their agent and that step
  does not, \<open>executePlan\<close> fails with that step's error, which it rethrows without the
  execution record. The record is marked failed and holds exactly the records of the steps
  completed before the failing one (one record for a plan of three steps whose second step
  fails). The steps after the failing one are never attempted: the outcome and the final
  state are those of the plan cut off after the failing step.
\<close>

theorem executePlan_stops_at_first_failure:
  assumes "spawnRequired st sessionId (requiredAgents pl) = (Inr (), st1)"
    and "sessions st1 sessionId = Some s"
    and "steps pl = pre @ bad # post"
    and "\<forall>stp \<in> set pre. findAgentInstance s (agent stp) \<noteq> None"
    and "findAgentInstance s (agent bad) = None"
  shows "\<exists>ex st'. executePlan st pl sessionId msg = (Inl (AgentNotInSession (agent bad), ex), st')
           \<and> ex_status ex = ''failed'' \<and> ex_error ex = Some (AgentNotInSession (agent bad))
           \<and> length (ex_steps ex) = length pre
           \<and> map se_action (ex_steps ex) = map action pre
           \<and> map se_status (ex_steps ex) = replicate (length pre) ''completed''
           \<and> executePlan st (pl\<lparr>steps := pre @ [bad]\<rparr>) sessionId msg
               = executePlan st pl sessionId msg"
proof -
  from executePlan_first_failure [OF assms, of msg] obtain ex st' where ex:
    "executePlan st pl sessionId msg = (Inl (AgentNotInSession (agent bad), ex), st')"
    "executePlan st (pl\<lparr>steps := pre @ [bad]\<rparr>) sessionId msg
               = (Inl (AgentNotInSession (agent bad), ex), st')"
    "ex_status ex = ''failed''" "ex_error ex = Some (AgentNotInSession (agent bad))"
    "map se_action (ex_steps ex) = map action pre"
    "map se_status (ex_steps ex) = replicate (length pre) ''completed''" by blast
  from ex(5) have "length (map se_action (ex_steps ex)) = length (map action pre)" by simp
  then have "length (ex_steps ex) = length pre" by simp
  with ex show ?thesis by simp
qed

theorem executePlan_stops_at_first_failure_witness:
  "\<exists>ex st'. executePlan oneAgent threeSteps 0 helloMessage
                  = (Inl (AgentNotInSession ''analysis_agent'', ex), st')
        \<and> ex_status ex = ''failed'' \<and> map se_action (ex_steps ex) = [''search_information'']
        \<and> executePlan oneAgent (threeSteps\<lparr>steps := take 2 (steps threeSteps)\<rparr>) 0 helloMessage
            = executePlan oneAgent threeSteps 0 helloMessage"
proof -
  from threeSteps_setting obtain s where s:
    "spawnRequired oneAgent 0 (requiredAgents threeSteps) = (Inr (), oneAgent)"
    "sessions oneAgent 0 = Some s"
    "steps threeSteps =
           [\<lparr>action = ''search_information'', agent = ''research_agent'', stepTools = [''web_search'']\<rparr>]
           @ \<lparr>action = ''synthesize_results'', agent = ''analysis_agent'', stepTools = [''content_generation'']\<rparr>
           # [\<lparr>action = ''gather_information'', agent = ''research_agent'', stepTools = [''web_search'']\<rparr>]"
    "findAgentInstance s ''research_agent'' \<noteq> None"
    "findAgentInstance s ''analysis_agent'' = None" by blast
  have pre: "\<forall>stp \<in> set [\<lparr>action = ''search_information'', agent = ''research_agent'', stepTools = [''web_search'']\<rparr>].
               findAgentInstance s (agent stp) \<noteq> None" using s(4) by simp
  have bad: "findAgentInstance s (agent \<lparr>action = ''synthesize_results'', agent = ''analysis_agent'',
               stepTools = [''content_generation'']\<rparr>) = None" using s(5) by simp
  have tk: "take 2 (steps threeSteps) =
              [\<lparr>action = ''search_information'', agent = ''research_agent'', stepTools = [''web_search'']\<rparr>]
              @ [\<lparr>action = ''synthesize_results'', agent = ''analysis_agent'', stepTools = [''content_generation'']\<rparr>]"
    by (simp add: threeSteps_def)
  from executePlan_stops_at_first_failure [OF s(1,2,3) pre bad, of helloMessage]
  show ?thesis unfolding tk by auto
qed

end
